theory Spec2Isabelle
  imports Main "HOL-Library.Sublist"
begin

section \<open>JavaScript values used by the server\<close>

text \<open>
  The server is an Express application (\<^verbatim>\<open>server.js\<close>) kept in three revisions:
  \<^item> the single-model OpenRouter revision (first part of \<^verbatim>\<open>src/server.js\<close>),
  \<^item> the revision with an ordered list of four candidate models (the code kept in
    \<^verbatim>\<open>src/README.md\<close>),
  \<^item> the Inaia revision (second part of \<^verbatim>\<open>src/server.js\<close>).

  A JavaScript string is modelled as a \<^typ>\<open>string\<close> holding the UTF-8 bytes of its text;
  a character outside ASCII is therefore several \<^typ>\<open>char\<close>s. A request field that may be
  absent is a \<^typ>\<open>string option\<close>, \<^term>\<open>None\<close> standing for \<^verbatim>\<open>undefined\<close>.
\<close>

subsection \<open>JSON values and \<^verbatim>\<open>JSON.parse\<close>\<close>

text \<open>
  A number keeps the text of its literal: the server never computes with a parsed
  number, it only tests it for truthiness.
\<close>

datatype json =
    JNull
  | JBool bool
  | JNumber string
  | JString string
  | JArray "json list"
  | JObject "(string \<times> json) list"

definition is_json_ws :: "char \<Rightarrow> bool" where
  "is_json_ws c = (c = CHR '' '' \<or> c = CHR 0x09 \<or> c = CHR 0x0A \<or> c = CHR 0x0D)"

definition is_digit :: "char \<Rightarrow> bool" where
  "is_digit c = (48 \<le> (of_char c :: nat) \<and> (of_char c :: nat) \<le> 57)"

definition hex_value :: "char \<Rightarrow> nat option" where
  "hex_value c =
     (let n = (of_char c :: nat) in
      if 48 \<le> n \<and> n \<le> 57 then Some (n - 48)
      else if 97 \<le> n \<and> n \<le> 102 then Some (n - 87)
      else if 65 \<le> n \<and> n \<le> 70 then Some (n - 55)
      else None)"

text \<open>Four hexadecimal digits of a \<^verbatim>\<open>\uXXXX\<close> escape: the UTF-16 code unit they name.\<close>

fun hex4 :: "string \<Rightarrow> nat option" where
  "hex4 (a # b # c # d # _) =
     (case (hex_value a, hex_value b, hex_value c, hex_value d) of
        (Some x, Some y, Some z, Some w) \<Rightarrow> Some (4096 * x + 256 * y + 16 * z + w)
      | _ \<Rightarrow> None)"
| "hex4 _ = None"

text \<open>
  The UTF-8 bytes of a code point. A lone surrogate (which a JavaScript string may
  hold) gets the three bytes the same scheme gives it.
\<close>

definition utf8_encode :: "nat \<Rightarrow> string" where
  "utf8_encode cp =
     (if cp < 0x80 then [char_of cp]
      else if cp < 0x800 then [char_of (0xC0 + cp div 64), char_of (0x80 + cp mod 64)]
      else if cp < 0x10000 then
        [char_of (0xE0 + cp div 4096), char_of (0x80 + (cp div 64) mod 64),
         char_of (0x80 + cp mod 64)]
      else
        [char_of (0xF0 + cp div 262144), char_of (0x80 + (cp div 4096) mod 64),
         char_of (0x80 + (cp div 64) mod 64), char_of (0x80 + cp mod 64)])"

definition simple_escape :: "char \<Rightarrow> char option" where
  "simple_escape e =
     (if e = CHR 0x22 then Some (CHR 0x22)
      else if e = CHR 0x5C then Some (CHR 0x5C)
      else if e = CHR ''/'' then Some (CHR ''/'')
      else if e = CHR ''b'' then Some (CHR 0x08)
      else if e = CHR ''f'' then Some (CHR 0x0C)
      else if e = CHR ''n'' then Some (CHR 0x0A)
      else if e = CHR ''r'' then Some (CHR 0x0D)
      else if e = CHR ''t'' then Some (CHR 0x09)
      else None)"

text \<open>
  A \<^verbatim>\<open>\uXXXX\<close> escape, read at the text after \<^verbatim>\<open>\u\<close>: the bytes it stands for and the
  number of characters it takes. A high surrogate directly followed by an escaped low
  surrogate is one code point.
\<close>

definition unicode_escape :: "string \<Rightarrow> (string \<times> nat) option" where
  "unicode_escape es =
     (case hex4 es of
        None \<Rightarrow> None
      | Some hi \<Rightarrow>
          (if 0xD800 \<le> hi \<and> hi < 0xDC00 \<and> take 2 (drop 4 es) = [CHR 0x5C, CHR ''u''] then
             (case hex4 (drop 6 es) of
                Some lo \<Rightarrow>
                  (if 0xDC00 \<le> lo \<and> lo < 0xE000
                   then Some (utf8_encode (0x10000 + (hi - 0xD800) * 1024 + (lo - 0xDC00)), 10)
                   else Some (utf8_encode hi, 4))
              | None \<Rightarrow> Some (utf8_encode hi, 4))
           else Some (utf8_encode hi, 4)))"

text \<open>
  The characters of a string literal, read after its opening quote: the string it
  denotes and the text after the closing quote. A raw control character, an unknown
  escape and a missing closing quote are syntax errors.
\<close>

fun lex_string :: "string \<Rightarrow> (string \<times> string) option" where
  "lex_string [] = None"
| "lex_string (c # cs) =
     (if c = CHR 0x22 then Some ([], cs)
      else if c = CHR 0x5C then
        (case cs of
           [] \<Rightarrow> None
         | e # es \<Rightarrow>
             (if e = CHR ''u'' then
                (case unicode_escape es of
                   None \<Rightarrow> None
                 | Some (bytes, n) \<Rightarrow>
                     map_option (\<lambda>(str, r). (bytes @ str, r)) (lex_string (drop n es)))
              else
                (case simple_escape e of
                   None \<Rightarrow> None
                 | Some d \<Rightarrow> map_option (\<lambda>(str, r). (d # str, r)) (lex_string es))))
      else if (of_char c :: nat) < 0x20 then None
      else map_option (\<lambda>(str, r). (c # str, r)) (lex_string cs))"

text \<open>
  A number literal \<^verbatim>\<open>-?(0|[1-9][0-9]*)(\.[0-9]+)?([eE][+-]?[0-9]+)?\<close>: its text and the
  text after it.
\<close>

definition lex_digits :: "string \<Rightarrow> (string \<times> string) option" where
  "lex_digits s =
     (if takeWhile is_digit s = [] then None
      else Some (takeWhile is_digit s, dropWhile is_digit s))"

definition lex_int_part :: "string \<Rightarrow> (string \<times> string) option" where
  "lex_int_part s =
     (case s of
        [] \<Rightarrow> None
      | c # cs \<Rightarrow> if c = CHR ''0'' then Some ([c], cs) else lex_digits s)"

definition lex_fraction :: "string \<Rightarrow> (string \<times> string) option" where
  "lex_fraction s =
     (case s of
        [] \<Rightarrow> Some ([], s)
      | c # cs \<Rightarrow>
          if c = CHR ''.'' then map_option (\<lambda>(ds, r). (c # ds, r)) (lex_digits cs)
          else Some ([], s))"

definition lex_exponent :: "string \<Rightarrow> (string \<times> string) option" where
  "lex_exponent s =
     (case s of
        [] \<Rightarrow> Some ([], s)
      | c # cs \<Rightarrow>
          if c = CHR ''e'' \<or> c = CHR ''E'' then
            (case cs of
               [] \<Rightarrow> None
             | g # gs \<Rightarrow>
                 if g = CHR ''+'' \<or> g = CHR ''-''
                 then map_option (\<lambda>(ds, r). (c # g # ds, r)) (lex_digits gs)
                 else map_option (\<lambda>(ds, r). (c # ds, r)) (lex_digits cs))
          else Some ([], s))"

definition lex_number :: "string \<Rightarrow> (string \<times> string) option" where
  "lex_number s =
     (let (sign, s1) = (case s of
                          [] \<Rightarrow> ([], s)
                        | c # cs \<Rightarrow> if c = CHR ''-'' then ([c], cs) else ([], s))
      in case lex_int_part s1 of
           None \<Rightarrow> None
         | Some (ip, s2) \<Rightarrow>
             (case lex_fraction s2 of
                None \<Rightarrow> None
              | Some (fp, s3) \<Rightarrow>
                  (case lex_exponent s3 of
                     None \<Rightarrow> None
                   | Some (ep, s4) \<Rightarrow> Some (sign @ ip @ fp @ ep, s4))))"

text \<open>
  The recursive-descent parser. Each function returns the value it read and the text
  after it. \<open>parse_elements\<close> reads the elements of an array up to and including the
  closing bracket, \<open>parse_members\<close> the members of an object up to and including the
  closing brace. The tests \<open>length _ < length s\<close> make the recursion well-founded; they
  always hold, since a value is never empty (\<open>parse_shorter\<close>), and the two functions
  satisfy their equations without them (\<open>parse_elements_unfold\<close>, \<open>parse_members_unfold\<close>).
\<close>

lemma dropWhile_eq_Cons_shorter: "dropWhile P xs = y # ys \<Longrightarrow> length ys < length xs"
  using length_dropWhile_le[of P xs] by simp

lemma dropWhile_shorter: "length xs < n \<Longrightarrow> length (dropWhile P xs) < n"
  using length_dropWhile_le[of P xs] by simp

function parse_value :: "string \<Rightarrow> (json \<times> string) option"
  and parse_elements :: "string \<Rightarrow> (json list \<times> string) option"
  and parse_members :: "string \<Rightarrow> ((string \<times> json) list \<times> string) option"
where
  "parse_value s =
     (case dropWhile is_json_ws s of
        [] \<Rightarrow> None
      | c # cs \<Rightarrow>
          if c = CHR ''['' then
            (case dropWhile is_json_ws cs of
               [] \<Rightarrow> None
             | d # ds \<Rightarrow>
                 if d = CHR '']'' then Some (JArray [], ds)
                 else map_option (\<lambda>(vs, r). (JArray vs, r)) (parse_elements (d # ds)))
          else if c = CHR ''{'' then
            (case dropWhile is_json_ws cs of
               [] \<Rightarrow> None
             | d # ds \<Rightarrow>
                 if d = CHR ''}'' then Some (JObject [], ds)
                 else map_option (\<lambda>(ms, r). (JObject ms, r)) (parse_members (d # ds)))
          else if c = CHR 0x22 then map_option (\<lambda>(str, r). (JString str, r)) (lex_string cs)
          else if take 4 (c # cs) = ''true'' then Some (JBool True, drop 4 (c # cs))
          else if take 5 (c # cs) = ''false'' then Some (JBool False, drop 5 (c # cs))
          else if take 4 (c # cs) = ''null'' then Some (JNull, drop 4 (c # cs))
          else map_option (\<lambda>(n, r). (JNumber n, r)) (lex_number (c # cs)))"
| "parse_elements s =
     (case parse_value s of
        None \<Rightarrow> None
      | Some (v, r) \<Rightarrow>
          (case dropWhile is_json_ws r of
             [] \<Rightarrow> None
           | c # cs \<Rightarrow>
               if c = CHR '']'' then Some ([v], cs)
               else if c = CHR '','' \<and> length cs < length s
               then map_option (\<lambda>(vs, r'). (v # vs, r')) (parse_elements cs)
               else None))"
| "parse_members s =
     (case s of
        [] \<Rightarrow> None
      | q # qs \<Rightarrow>
          if q = CHR 0x22 then
            (case lex_string qs of
               None \<Rightarrow> None
             | Some (k, r1) \<Rightarrow>
                 (case dropWhile is_json_ws r1 of
                    [] \<Rightarrow> None
                  | c # cs \<Rightarrow>
                      if c = CHR '':'' \<and> length cs < length s then
                        (case parse_value cs of
                           None \<Rightarrow> None
                         | Some (v, r2) \<Rightarrow>
                             (case dropWhile is_json_ws r2 of
                                [] \<Rightarrow> None
                              | d # ds \<Rightarrow>
                                  if d = CHR ''}'' then Some ([(k, v)], ds)
                                  else if d = CHR '','' \<and> length ds < length s
                                  then map_option (\<lambda>(ms, r'). ((k, v) # ms, r'))
                                         (parse_members (dropWhile is_json_ws ds))
                                  else None))
                      else None))
          else None)"
  by pat_completeness auto
termination
  by (relation "measures [\<lambda>x. case x of Inl s \<Rightarrow> length s | Inr (Inl s) \<Rightarrow> length s
                                      | Inr (Inr s) \<Rightarrow> length s,
                          \<lambda>x. case x of Inl s \<Rightarrow> 0 | Inr (Inl s) \<Rightarrow> 1 | Inr (Inr s) \<Rightarrow> (1::nat)]")
     (auto dest!: dropWhile_eq_Cons_shorter intro: dropWhile_shorter)

declare parse_value.simps [simp del] parse_elements.simps [simp del] parse_members.simps [simp del]

text \<open>\<^verbatim>\<open>JSON.parse(text)\<close>: \<^term>\<open>None\<close> when it throws a SyntaxError.\<close>

definition JSON_parse :: "string \<Rightarrow> json option" where
  "JSON_parse s =
     (case parse_value s of
        None \<Rightarrow> None
      | Some (v, r) \<Rightarrow> if dropWhile is_json_ws r = [] then Some v else None)"

subsection \<open>Strings, truthiness and numbers\<close>

text \<open>
  \<^verbatim>\<open>!x\<close> for a field that is a string or \<^verbatim>\<open>undefined\<close>: the empty string and
  \<^verbatim>\<open>undefined\<close> are falsy.
\<close>

fun falsy :: "string option \<Rightarrow> bool" where
  "falsy None = True"
| "falsy (Some s) = (s = [])"

text \<open>\<^verbatim>\<open>x || d\<close> for such a field and a string \<open>d\<close>.\<close>

fun or_default :: "string option \<Rightarrow> string \<Rightarrow> string" where
  "or_default None d = d"
| "or_default (Some s) d = (if s = [] then d else s)"

text \<open>\<^verbatim>\<open>${x}\<close> in a template literal, and the key of \<^verbatim>\<open>table[x]\<close>: ToString.\<close>

fun to_str :: "string option \<Rightarrow> string" where
  "to_str None = ''undefined''"
| "to_str (Some s) = s"

text \<open>
  The white space \<^verbatim>\<open>String.prototype.trim\<close> and \<^verbatim>\<open>parseInt\<close> strip (WhiteSpace and
  LineTerminator of ECMA-262), as UTF-8: the one-byte characters, U+00A0, and the
  three-byte characters U+1680, U+2000..U+200A, U+2028, U+2029, U+202F, U+205F, U+3000
  and U+FEFF.
\<close>

definition is_space1 :: "char \<Rightarrow> bool" where
  "is_space1 c = (c = CHR 0x09 \<or> c = CHR 0x0A \<or> c = CHR 0x0B \<or> c = CHR 0x0C \<or> c = CHR 0x0D
                  \<or> c = CHR 0x20)"

definition is_space2 :: "char \<Rightarrow> char \<Rightarrow> bool" where
  "is_space2 a b = (a = CHR 0xC2 \<and> b = CHR 0xA0)"

definition is_space3 :: "char \<Rightarrow> char \<Rightarrow> char \<Rightarrow> bool" where
  "is_space3 a b c =
     ((a = CHR 0xE1 \<and> b = CHR 0x9A \<and> c = CHR 0x80)
      \<or> (a = CHR 0xE2 \<and> b = CHR 0x80 \<and> 0x80 \<le> (of_char c :: nat) \<and> (of_char c :: nat) \<le> 0x8A)
      \<or> (a = CHR 0xE2 \<and> b = CHR 0x80 \<and> (c = CHR 0xA8 \<or> c = CHR 0xA9 \<or> c = CHR 0xAF))
      \<or> (a = CHR 0xE2 \<and> b = CHR 0x81 \<and> c = CHR 0x9F)
      \<or> (a = CHR 0xE3 \<and> b = CHR 0x80 \<and> c = CHR 0x80)
      \<or> (a = CHR 0xEF \<and> b = CHR 0xBB \<and> c = CHR 0xBF))"

fun trim_start :: "string \<Rightarrow> string" where
  "trim_start (a # b # c # s) =
     (if is_space1 a then trim_start (b # c # s)
      else if is_space2 a b then trim_start (c # s)
      else if is_space3 a b c then trim_start s
      else a # b # c # s)"
| "trim_start [a, b] =
     (if is_space1 a then trim_start [b]
      else if is_space2 a b then []
      else [a, b])"
| "trim_start [a] = (if is_space1 a then [] else [a])"
| "trim_start [] = []"

text \<open>The same from the end, on the reversed string.\<close>

fun trim_start_rev :: "string \<Rightarrow> string" where
  "trim_start_rev (c # b # a # s) =
     (if is_space1 c then trim_start_rev (b # a # s)
      else if is_space2 b c then trim_start_rev (a # s)
      else if is_space3 a b c then trim_start_rev s
      else c # b # a # s)"
| "trim_start_rev [c, b] =
     (if is_space1 c then trim_start_rev [b]
      else if is_space2 b c then []
      else [c, b])"
| "trim_start_rev [c] = (if is_space1 c then [] else [c])"
| "trim_start_rev [] = []"

definition trim :: "string \<Rightarrow> string" where
  "trim s = rev (trim_start_rev (rev (trim_start s)))"

text \<open>
  ToString of an integral Number, and of a \<^verbatim>\<open>postCount\<close> field. An integer stands for
  the Number of that value; the decimal numeral is its ToString as long as its
  magnitude is below \<open>10\<^sup>2\<^sup>1\<close>.
\<close>

fun digits_of :: "nat \<Rightarrow> string" where
  "digits_of n =
     (if n < 10 then [char_of (48 + n)] else digits_of (n div 10) @ [char_of (48 + n mod 10)])"

declare digits_of.simps [simp del]

definition number_to_string :: "int \<Rightarrow> string" where
  "number_to_string i = (if i < 0 then CHR ''-'' # digits_of (nat (- i)) else digits_of (nat i))"

text \<open>
  \<^verbatim>\<open>parseInt(string)\<close> without a radix: leading white space, a sign, an optional
  \<^verbatim>\<open>0x\<close> prefix, then the longest run of digits; \<^term>\<open>None\<close> is NaN. The result is
  the mathematical value, which is the Number \<^verbatim>\<open>parseInt\<close> returns as long as its
  magnitude is at most \<open>2\<^sup>5\<^sup>3\<close>.
\<close>

definition digit_value :: "nat \<Rightarrow> char \<Rightarrow> nat option" where
  "digit_value radix c =
     (case hex_value c of
        None \<Rightarrow> None
      | Some v \<Rightarrow> if v < radix then Some v else None)"

definition digits_value :: "nat \<Rightarrow> string \<Rightarrow> nat" where
  "digits_value radix z = foldl (\<lambda>acc c. acc * radix + the (digit_value radix c)) 0 z"

definition strip_sign :: "string \<Rightarrow> bool \<times> string" where
  "strip_sign s =
     (case s of
        [] \<Rightarrow> (False, s)
      | c # cs \<Rightarrow> if c = CHR ''-'' then (True, cs)
                 else if c = CHR ''+'' then (False, cs)
                 else (False, s))"

definition strip_radix :: "string \<Rightarrow> nat \<times> string" where
  "strip_radix s =
     (if take 2 s = ''0x'' \<or> take 2 s = ''0X'' then (16, drop 2 s) else (10, s))"

definition parseInt :: "string \<Rightarrow> int option" where
  "parseInt str =
     (let (negative, s1) = strip_sign (trim_start str);
          (radix, s2) = strip_radix s1;
          z = takeWhile (\<lambda>c. digit_value radix c \<noteq> None) s2
      in if z = [] then None
         else Some ((if negative then - 1 else 1) * int (digits_value radix z)))"

text \<open>The \<^verbatim>\<open>postCount\<close> field of a request body: absent, a JSON integer or a JSON string.\<close>

datatype post_count = PCAbsent | PCNumber int | PCString string

fun post_count_to_string :: "post_count \<Rightarrow> string" where
  "post_count_to_string PCAbsent = ''undefined''"
| "post_count_to_string (PCNumber n) = number_to_string n"
| "post_count_to_string (PCString s) = s"

text \<open>
  \<^verbatim>\<open>const count = Math.min(parseInt(postCount) || 5, 30);\<close> (the same line in the three
  revisions). NaN and 0 are falsy.
\<close>

definition post_count_clamp :: "post_count \<Rightarrow> int" where
  "post_count_clamp postCount =
     min (case parseInt (post_count_to_string postCount) of
            None \<Rightarrow> 5
          | Some n \<Rightarrow> if n = 0 then 5 else n) 30"

text \<open>
  \<^verbatim>\<open>s.substring(0, n)\<close>: the first \<open>n\<close> UTF-16 code units of \<open>s\<close>. A character of four
  UTF-8 bytes is two code units; cut in the middle, it leaves its high surrogate.
\<close>

definition high_surrogate :: "char \<Rightarrow> char \<Rightarrow> char \<Rightarrow> char \<Rightarrow> nat" where
  "high_surrogate a b c d =
     0xD800 + ((of_char a mod 8) * 262144 + (of_char b mod 64) * 4096
               + (of_char c mod 64) * 64 + of_char d mod 64 - 0x10000) div 1024"

fun substring0 :: "nat \<Rightarrow> string \<Rightarrow> string" where
  "substring0 0 s = []"
| "substring0 (Suc n) [] = []"
| "substring0 (Suc n) (a # s) =
     (if (of_char a :: nat) < 0x80 then a # substring0 n s
      else if (of_char a :: nat) < 0xE0 then a # take 1 s @ substring0 n (drop 1 s)
      else if (of_char a :: nat) < 0xF0 then a # take 2 s @ substring0 n (drop 2 s)
      else (case n of
              0 \<Rightarrow> (case s of
                      b # c # d # _ \<Rightarrow> utf8_encode (high_surrogate a b c d)
                    | _ \<Rightarrow> a # s)
            | Suc m \<Rightarrow> a # take 3 s @ substring0 m (drop 3 s)))"

subsection \<open>Values read from parsed JSON\<close>

text \<open>
  Truthiness of a JSON value. A number is falsy when it is zero, that is when the
  digits before its exponent are all \<open>0\<close> (a literal so small that it rounds to zero
  is not covered).
\<close>

definition number_nonzero :: "string \<Rightarrow> bool" where
  "number_nonzero lit =
     list_ex (\<lambda>c. is_digit c \<and> c \<noteq> CHR ''0'')
       (takeWhile (\<lambda>c. c \<noteq> CHR ''e'' \<and> c \<noteq> CHR ''E'') lit)"

fun truthy_json :: "json \<Rightarrow> bool" where
  "truthy_json JNull = False"
| "truthy_json (JBool b) = b"
| "truthy_json (JNumber lit) = number_nonzero lit"
| "truthy_json (JString s) = (s \<noteq> [])"
| "truthy_json (JArray _) = True"
| "truthy_json (JObject _) = True"

text \<open>\<^verbatim>\<open>a || b\<close> where \<open>a\<close> may be \<^verbatim>\<open>undefined\<close>.\<close>

fun or_json :: "json option \<Rightarrow> json \<Rightarrow> json" where
  "or_json None b = b"
| "or_json (Some a) b = (if truthy_json a then a else b)"

text \<open>
  \<^verbatim>\<open>v.error\<close> and \<^verbatim>\<open>v.message\<close> on a value that is not null: an object has the member
  its last entry of that name gives; no prototype defines either name, so every other
  value gives \<^verbatim>\<open>undefined\<close>.
\<close>

fun get_member :: "json \<Rightarrow> string \<Rightarrow> json option" where
  "get_member (JObject ms) k = map_of (rev ms) k"
| "get_member _ k = None"

text \<open>\<^verbatim>\<open>e?.message\<close>.\<close>

fun optional_message :: "json option \<Rightarrow> json option" where
  "optional_message None = None"
| "optional_message (Some JNull) = None"
| "optional_message (Some v) = get_member v ''message''"

text \<open>\<^verbatim>\<open>posts.length\<close>; only its comparison with \<open>0\<close> is used.\<close>

fun js_length :: "json \<Rightarrow> nat option" where
  "js_length (JArray xs) = Some (length xs)"
| "js_length (JString s) = Some (length s)"
| "js_length _ = None"

subsection \<open>The regular expression \<^verbatim>\<open>/\[[\s\S]*\]/\<close>\<close>

text \<open>
  \<open>greedy_rest s\<close> matches \<^verbatim>\<open>[\s\S]*\]\<close> at the start of \<open>s\<close>: the star takes as much as
  it can and gives back until a \<^verbatim>\<open>]\<close> follows, so the match ends at the last \<^verbatim>\<open>]\<close> of
  \<open>s\<close>. \<open>jsonMatch s\<close> is \<^verbatim>\<open>s.match(/\[[\s\S]*\]/)\<close>: the match at the leftmost position
  where there is one (its element 0), \<^term>\<open>None\<close> for \<^verbatim>\<open>null\<close>.
\<close>

fun greedy_rest :: "string \<Rightarrow> string option" where
  "greedy_rest [] = None"
| "greedy_rest (c # cs) =
     (case greedy_rest cs of
        Some m \<Rightarrow> Some (c # m)
      | None \<Rightarrow> if c = CHR '']'' then Some [c] else None)"

fun jsonMatch :: "string \<Rightarrow> string option" where
  "jsonMatch [] = None"
| "jsonMatch (c # cs) =
     (if c = CHR ''['' then
        (case greedy_rest cs of
           Some m \<Rightarrow> Some (c # m)
         | None \<Rightarrow> jsonMatch cs)
      else jsonMatch cs)"

text \<open>
  The block shared by the three content handlers:
  \<^verbatim>\<open>const jsonMatch = content.match(/\[[\s\S]*\]/); if (jsonMatch) { posts = JSON.parse(jsonMatch[0]); }\<close>
  with its three outcomes.
\<close>

datatype parsed_posts = NoMatch | ParseThrew | Parsed json

definition parse_posts :: "string \<Rightarrow> parsed_posts" where
  "parse_posts content =
     (case jsonMatch content of
        None \<Rightarrow> NoMatch
      | Some span \<Rightarrow>
          (case JSON_parse span of
             None \<Rightarrow> ParseThrew
           | Some posts \<Rightarrow> Parsed posts))"

section \<open>Helpers of \<^verbatim>\<open>server.js\<close>\<close>

text \<open>
  The helpers are the same text in the three revisions. In the records of the request
  fields, \<open>size_field\<close> is the field \<^verbatim>\<open>size\<close>.
\<close>

text \<open>
  The characters outside printable ASCII that the texts of the server use, each as its
  UTF-8 bytes: the accented letters, the punctuation and the emoji of the Spanish texts.
\<close>

definition a_acute :: string where
  "a_acute = [CHR 0xC3, CHR 0xA1]"

definition e_acute :: string where
  "e_acute = [CHR 0xC3, CHR 0xA9]"

definition i_acute :: string where
  "i_acute = [CHR 0xC3, CHR 0xAD]"

definition o_acute :: string where
  "o_acute = [CHR 0xC3, CHR 0xB3]"

definition u_acute :: string where
  "u_acute = [CHR 0xC3, CHR 0xBA]"

definition n_tilde :: string where
  "n_tilde = [CHR 0xC3, CHR 0xB1]"

definition capital_i_acute :: string where
  "capital_i_acute = [CHR 0xC3, CHR 0x8D]"

definition superscript_two :: string where
  "superscript_two = [CHR 0xC2, CHR 0xB2]"

definition inverted_question :: string where
  "inverted_question = [CHR 0xC2, CHR 0xBF]"

definition inverted_exclamation :: string where
  "inverted_exclamation = [CHR 0xC2, CHR 0xA1]"

definition sparkles :: string where
  "sparkles = [CHR 0xE2, CHR 0x9C, CHR 0xA8]"

definition pointing_up :: string where
  "pointing_up = [CHR 0xF0, CHR 0x9F, CHR 0x91, CHR 0x86]"

definition fire :: string where
  "fire = [CHR 0xF0, CHR 0x9F, CHR 0x94, CHR 0xA5]"

definition hundred_points :: string where
  "hundred_points = [CHR 0xF0, CHR 0x9F, CHR 0x92, CHR 0xAF]"

definition light_bulb :: string where
  "light_bulb = [CHR 0xF0, CHR 0x9F, CHR 0x92, CHR 0xA1]"

definition raising_hands :: string where
  "raising_hands = [CHR 0xF0, CHR 0x9F, CHR 0x99, CHR 0x8C]"

definition camera_flash :: string where
  "camera_flash = [CHR 0xF0, CHR 0x9F, CHR 0x93, CHR 0xB8]"

definition heavy_heart :: string where
  "heavy_heart = [CHR 0xE2, CHR 0x9D, CHR 0xA4]"

definition variation_selector :: string where
  "variation_selector = [CHR 0xEF, CHR 0xB8, CHR 0x8F]"

definition party_popper :: string where
  "party_popper = [CHR 0xF0, CHR 0x9F, CHR 0x8E, CHR 0x89]"

definition folded_hands :: string where
  "folded_hands = [CHR 0xF0, CHR 0x9F, CHR 0x99, CHR 0x8F]"

definition double_quote :: string where
  "double_quote = [CHR 0x22]"


record property_fields =
  propertyType :: "string option"
  rooms :: "string option"
  bathrooms :: "string option"
  size_field :: "string option"
  location :: "string option"
  features :: "string option"
  style :: "string option"

record 'n content_fields =
  businessType :: "string option"
  businessDesc :: "string option"
  tone :: "string option"
  network :: "string option"
  postCount :: 'n

text \<open>
  \<^verbatim>\<open>table[key]\<close> on an object literal: the object's own property of that name or,
  failing that, the property inherited from \<^verbatim>\<open>Object.prototype\<close>. In a template literal
  an inherited function prints as its source text and the inherited \<^verbatim>\<open>__proto__\<close>
  (the prototype object) as \<^verbatim>\<open>[object Object]\<close>; all of them are truthy.
\<close>

definition object_prototype_member :: "string \<Rightarrow> string option" where
  "object_prototype_member k =
     (if k = ''constructor'' then Some ''function Object() { [native code] }''
      else if k \<in> set [''hasOwnProperty'', ''isPrototypeOf'', ''propertyIsEnumerable'',
                        ''toLocaleString'', ''toString'', ''valueOf'', ''__defineGetter__'',
                        ''__defineSetter__'', ''__lookupGetter__'', ''__lookupSetter__'']
      then Some (''function '' @ k @ ''() { [native code] }'')
      else if k = ''__proto__'' then Some ''[object Object]''
      else None)"

definition table_lookup :: "(string \<times> string) list \<Rightarrow> string option \<Rightarrow> string option" where
  "table_lookup table key =
     (case map_of table (to_str key) of
        Some phrase \<Rightarrow> Some phrase
      | None \<Rightarrow> object_prototype_member (to_str key))"

definition styleDescriptions :: "(string \<times> string) list" where
  "styleDescriptions =
     [(''profesional'', ''formal y profesional''),
      (''emocional'', ''emotivo y que conecte con el comprador''),
      (''minimalista'', ''conciso y elegante''),
      (''detallado'', ''muy detallado y exhaustivo'')]"

definition buildPropertyPrompt :: "property_fields \<Rightarrow> string" where
  "buildPropertyPrompt data =
     ''Genera una descripci'' @ o_acute @ ''n atractiva para esta propiedad:\<newline>'' @
     ''\<newline>'' @
     ''Tipo: '' @ to_str (propertyType data) @ ''\<newline>'' @
     ''Habitaciones: '' @ or_default (rooms data) ''No especificado'' @ ''\<newline>'' @
     ''Ba'' @ n_tilde @ ''os: '' @ or_default (bathrooms data) ''No especificado'' @ ''\<newline>'' @
     ''Tama'' @ n_tilde @ ''o: '' @ or_default (size_field data) ''No especificado'' @ '' m'' @ superscript_two @ ''\<newline>'' @
     ''Ubicaci'' @ o_acute @ ''n: '' @ to_str (location data) @ ''\<newline>'' @
     ''Caracter'' @ i_acute @ ''sticas: '' @ or_default (features data) ''No especificadas'' @ ''\<newline>'' @
     ''Estilo de escritura: '' @ or_default (table_lookup styleDescriptions (style data)) ''profesional'' @ ''\<newline>'' @
     ''\<newline>'' @
     ''Escribe una descripci'' @ o_acute @ ''n de 100-150 palabras que destaque los beneficios y genere inter'' @ e_acute @ ''s.''"

definition toneDescriptions :: "(string \<times> string) list" where
  "toneDescriptions =
     [(''profesional'', ''formal y profesional, enfocado en expertise''),
      (''cercano'', ''amigable y cercano, como un amigo''),
      (''inspiracional'', ''motivador e inspiracional''),
      (''humoristico'', ''con humor ligero y entretenido''),
      (''educativo'', ''informativo y educativo'')]"

definition networkFormats :: "(string \<times> string) list" where
  "networkFormats =
     [(''instagram'', ''posts visuales con 3-5 hashtags, m'' @ a_acute @ ''ximo 150 palabras''),
      (''facebook'', ''posts conversacionales, 1-3 hashtags''),
      (''linkedin'', ''contenido profesional y de valor''),
      (''twitter'', ''tweets de m'' @ a_acute @ ''ximo 280 caracteres''),
      (''tiktok'', ''descripciones cortas y llamativas'')]"

text \<open>
  \<^verbatim>\<open>toneDescriptions.profesional\<close> and \<^verbatim>\<open>networkFormats.instagram\<close> are own properties
  of the two tables.
\<close>

definition buildContentPrompt :: "int content_fields \<Rightarrow> string" where
  "buildContentPrompt data =
     ''Genera '' @ number_to_string (postCount data) @ '' posts para redes sociales:\<newline>'' @
     ''\<newline>'' @
     ''Negocio: '' @ to_str (businessType data) @ ''\<newline>'' @
     (if falsy (businessDesc data) then []
      else ''Descripci'' @ o_acute @ ''n: '' @ to_str (businessDesc data)) @ ''\<newline>'' @
     ''Tono: '' @
     or_default (table_lookup toneDescriptions (tone data))
       (the (map_of toneDescriptions ''profesional'')) @ ''\<newline>'' @
     ''Red social: '' @ to_str (network data) @ '' ('' @
     or_default (table_lookup networkFormats (network data))
       (the (map_of networkFormats ''instagram'')) @ '')\<newline>'' @
     ''\<newline>'' @
     ''Requisitos:\<newline>'' @
     ''- Posts '' @ u_acute @ ''nicos y variados\<newline>'' @
     ''- Emojis apropiados\<newline>'' @
     ''- Mezcla tipos: tips, preguntas, promociones, behind the scenes\<newline>'' @
     ''- Hashtags relevantes\<newline>'' @
     ''- Espa'' @ n_tilde @ ''ol chileno/latinoamericano\<newline>'' @
     ''\<newline>'' @
     ''Responde SOLO con el JSON array.''"

text \<open>
  \<^verbatim>\<open>templates.slice(0, count)\<close>: a negative \<open>count\<close> counts from the end of the list.
\<close>

definition slice0 :: "'a list \<Rightarrow> int \<Rightarrow> 'a list" where
  "slice0 xs n = (if n < 0 then take (nat (int (length xs) + n)) xs else take (nat n) xs)"

definition template_post :: "string \<Rightarrow> string list \<Rightarrow> json" where
  "template_post text_content tags =
     JObject [(''content'', JString text_content), (''hashtags'', JArray (map JString tags))]"

definition templates :: "string \<Rightarrow> json list" where
  "templates business =
     [template_post (sparkles @ '' '' @ inverted_question @ ''Sab'' @ i_acute @ ''as que '' @ business @ '' puede transformar tu d'' @ i_acute @ ''a? Descubre c'' @ o_acute @ ''mo '' @ pointing_up)
        [''#Emprendimiento'', ''#Chile''],
      template_post (fire @ '' '' @ inverted_exclamation @ ''Nuevo en '' @ business @ ''! Estamos emocionados de compartir esto contigo '' @ hundred_points)
        [''#Novedades'', ''#Tendencias''],
      template_post (light_bulb @ '' CONSEJO DEL D'' @ capital_i_acute @ ''A: Un peque'' @ n_tilde @ ''o cambio puede hacer una gran diferencia '' @ raising_hands)
        [''#Tips'', ''#Consejos''],
      template_post (camera_flash @ '' Behind the scenes de '' @ business @ '' '' @ sparkles @ '' Con pasi'' @ o_acute @ ''n y dedicaci'' @ o_acute @ ''n '' @ heavy_heart @ variation_selector)
        [''#BehindTheScenes'', ''#Trabajo''],
      template_post (party_popper @ '' '' @ inverted_exclamation @ ''GRACIAS por ser parte de nuestra comunidad! '' @ folded_hands)
        [''#Comunidad'', ''#Gracias'']]"

definition generateFallbackPosts :: "string option \<Rightarrow> int \<Rightarrow> json list" where
  "generateFallbackPosts business n = slice0 (templates (to_str business)) n"

section \<open>The upstream and the responses\<close>

text \<open>
  What one \<^verbatim>\<open>fetch\<close> of the OpenRouter completions endpoint gives a handler:
  \<^item> \<open>Threw msg\<close>: the call, or reading its body, threw an error with this message
    (a network error, a connection that timed out or was aborted, a body that is not the
    expected JSON);
  \<^item> \<open>NotOk code text\<close>: a response whose \<^verbatim>\<open>ok\<close> is false, with its status and body text;
  \<^item> \<open>Ok content\<close>: a 2xx response with \<^verbatim>\<open>data.choices[0]?.message?.content\<close>, a string or
    absent.
  A handler is run against a function from the model identifier to this outcome. The
  request headers and the \<^verbatim>\<open>max_tokens\<close> and \<^verbatim>\<open>temperature\<close> fields are not modelled.
\<close>

datatype upstream = Threw string | NotOk nat string | Ok "string option"

text \<open>
  What the \<^verbatim>\<open>fetch\<close> of \<^verbatim>\<open>callInaiaAPI\<close> gives: aborted by the 30 second timer
  (\<^verbatim>\<open>error.name === 'AbortError'\<close>), another error, or a response with its status and
  body text.
\<close>

datatype inaia_upstream = Aborted | Failed string | Answered nat string

type_synonym message = "string \<times> string"

record call =
  model :: string
  messages :: "message list"

text \<open>
  The \<^verbatim>\<open>details\<close> of an error body: a value, or the message the engine gives the
  TypeError of reading a property of \<^verbatim>\<open>null\<close>, or the message it gives the SyntaxError
  of \<^verbatim>\<open>JSON.parse\<close>.
\<close>

datatype details = Detail json | TypeErrorMessage | SyntaxErrorMessage

datatype body =
    ErrorOnly string
  | ErrorDetails string details
  | ErrorRaw string details string
  | Description string
  | Posts json

record response =
  status :: nat
  body :: body

definition property_system_prompt :: string where
  "property_system_prompt =
     ''Eres un experto copywriter inmobiliario chileno. Tu trabajo es crear descripciones atractivas y profesionales para propiedades en venta o arriendo. Usa un lenguaje persuasivo pero natural, destaca los beneficios y crea una conexi'' @ o_acute @ ''n emocional con el comprador potencial. Incluye emojis apropiados pero no exageres. Escribe en espa'' @ n_tilde @ ''ol chileno.''"

text \<open>The continuation lines are indented as the template literal is in each revision.\<close>

definition content_system_prompt :: "nat \<Rightarrow> string" where
  "content_system_prompt indent =
     ''Eres un experto en marketing de redes sociales y community management. \<newline>'' @
     replicate indent CHR '' '' @
     ''Creas contenido atractivo, con emojis apropiados y hashtags relevantes en espa'' @ n_tilde @ ''ol.\<newline>'' @
     replicate indent CHR '' '' @
     ''Cada post debe ser '' @ u_acute @ ''nico y variado en formato (pregunta, consejo, historia, promoci'' @ o_acute @ ''n, etc.).\<newline>'' @
     replicate indent CHR '' '' @
     ''Responde SOLO con un JSON array de objetos con formato: [{'' @ double_quote @ ''content'' @ double_quote @ '': '' @ double_quote @ ''texto del post'' @ double_quote @ '', '' @ double_quote @ ''hashtags'' @ double_quote @ '': ['' @ double_quote @ ''#tag1'' @ double_quote @ '', '' @ double_quote @ ''#tag2'' @ double_quote @ '']}]''"

text \<open>
  The error text of an upstream failure, as the two OpenRouter revisions compute it:
  \<^verbatim>\<open>try { errorJson = JSON.parse(lastError); } catch (e) { errorJson = { message: lastError }; }\<close>
  and then \<^verbatim>\<open>errorJson.error?.message || errorJson.message || lastError\<close>. The argument is
  \<^term>\<open>None\<close> for \<^verbatim>\<open>null\<close>, which \<^verbatim>\<open>JSON.parse\<close> reads as the text \<^verbatim>\<open>null\<close>. The result is
  \<^term>\<open>None\<close> when \<^verbatim>\<open>errorJson\<close> is \<^verbatim>\<open>null\<close>: reading \<^verbatim>\<open>errorJson.error\<close> then throws a
  TypeError.
\<close>

definition error_details :: "string option \<Rightarrow> json option" where
  "error_details lastError =
     (let raw = (case lastError of None \<Rightarrow> JNull | Some e \<Rightarrow> JString e);
          errorJson = (case JSON_parse (case lastError of None \<Rightarrow> ''null'' | Some e \<Rightarrow> e) of
                         Some j \<Rightarrow> j
                       | None \<Rightarrow> JObject [(''message'', raw)])
      in if errorJson = JNull then None
         else Some (or_json (optional_message (get_member errorJson ''error''))
                      (or_json (get_member errorJson ''message'') raw)))"

definition bad_request :: "string \<Rightarrow> response" where
  "bad_request msg = \<lparr>status = 400, body = ErrorOnly msg\<rparr>"

text \<open>
  The outer \<^verbatim>\<open>catch (error)\<close> of every handler:
  \<^verbatim>\<open>res.status(500).json({ error: 'Error interno del servidor', details: error.message })\<close>.
\<close>

definition internal_error :: "details \<Rightarrow> response" where
  "internal_error d = \<lparr>status = 500, body = ErrorDetails ''Error interno del servidor'' d\<rparr>"

text \<open>
  The object \<^verbatim>\<open>{ businessType, businessDesc, tone, network, postCount: count }\<close> that the
  three content handlers give to \<^verbatim>\<open>buildContentPrompt\<close>.
\<close>

definition prompt_data :: "post_count content_fields \<Rightarrow> int \<Rightarrow> int content_fields" where
  "prompt_data req n =
     \<lparr>businessType = businessType req, businessDesc = businessDesc req,
      tone = tone req, network = network req, postCount = n\<rparr>"

section \<open>The revision with four candidate models\<close>

definition models :: "string list" where
  "models =
     [''meta-llama/llama-3.1-8b-instruct:free'',
      ''mistralai/mistral-7b-instruct:free'',
      ''google/gemma-7b-it:free'',
      ''meta-llama/llama-3-8b-instruct:free'']"

record loop_state =
  lastError :: "string option"
  attempts :: "string list"

record property_state = loop_state +
  description :: string

record content_state = loop_state +
  posts :: json

text \<open>
  \<^verbatim>\<open>for (const modelId of models) { try { ... } catch (err) { lastError = err.message; } }\<close>
  of the property handler. \<open>attempts\<close> records the models fetched, in order.
\<close>

fun property_loop ::
  "(string \<Rightarrow> upstream) \<Rightarrow> string list \<Rightarrow> property_state \<Rightarrow> property_state" where
  "property_loop fetch [] st = st"
| "property_loop fetch (modelId # rest) st =
     (case fetch modelId of
        Threw msg \<Rightarrow>
          property_loop fetch rest
            (st\<lparr>lastError := Some msg, attempts := attempts st @ [modelId]\<rparr>)
      | NotOk code errorText \<Rightarrow>
          property_loop fetch rest
            (st\<lparr>lastError := Some errorText, attempts := attempts st @ [modelId]\<rparr>)
      | Ok content \<Rightarrow>
          (if or_default content [] \<noteq> []
           then st\<lparr>attempts := attempts st @ [modelId], description := or_default content []\<rparr>
           else property_loop fetch rest
                  (st\<lparr>attempts := attempts st @ [modelId],
                      description := or_default content []\<rparr>)))"

text \<open>
  The response after the loop: \<^verbatim>\<open>if (!description) { ... 500 ... }\<close>, else
  \<^verbatim>\<open>res.json({ success: true, description })\<close>. A TypeError thrown while the error body is
  built reaches the outer \<^verbatim>\<open>catch\<close>.
\<close>

definition exhausted :: "string option \<Rightarrow> response" where
  "exhausted captured =
     (case error_details captured of
        None \<Rightarrow> internal_error TypeErrorMessage
      | Some d \<Rightarrow> \<lparr>status = 500, body = ErrorDetails ''Error de IA (Agotado)'' (Detail d)\<rparr>)"

definition calls_of :: "message list \<Rightarrow> string list \<Rightarrow> call list" where
  "calls_of msgs ids = map (\<lambda>m. \<lparr>model = m, messages = msgs\<rparr>) ids"

definition propiedadia_fallback ::
  "(string \<Rightarrow> upstream) \<Rightarrow> property_fields \<Rightarrow> response \<times> call list" where
  "propiedadia_fallback fetch req =
     (if falsy (propertyType req) \<or> falsy (location req)
      then (bad_request ''Faltan campos requeridos (propertyType, location)'', [])
      else
        (let prompt = buildPropertyPrompt req;
             msgs = [(''system'', property_system_prompt), (''user'', prompt)];
             st = property_loop fetch models
                    \<lparr>lastError = None, attempts = [], description = []\<rparr>
         in (if description st = [] then exhausted (lastError st)
             else \<lparr>status = 200, body = Description (description st)\<rparr>,
             calls_of msgs (attempts st))))"

text \<open>\<^verbatim>\<open>posts.length > 0\<close> and \<^verbatim>\<open>posts.length === 0\<close>.\<close>

definition length_positive :: "json \<Rightarrow> bool" where
  "length_positive p = (case js_length p of None \<Rightarrow> False | Some n \<Rightarrow> 0 < n)"

definition length_zero :: "json \<Rightarrow> bool" where
  "length_zero p = (js_length p = Some 0)"

text \<open>
  The loop of the content handler. The inner \<^verbatim>\<open>try\<close> around the match and the parse
  catches a SyntaxError and only logs it.
\<close>

fun content_loop ::
  "(string \<Rightarrow> upstream) \<Rightarrow> string list \<Rightarrow> content_state \<Rightarrow> content_state" where
  "content_loop fetch [] st = st"
| "content_loop fetch (modelId # rest) st =
     (case fetch modelId of
        Threw msg \<Rightarrow>
          content_loop fetch rest
            (st\<lparr>lastError := Some msg, attempts := attempts st @ [modelId]\<rparr>)
      | NotOk code errorText \<Rightarrow>
          content_loop fetch rest
            (st\<lparr>lastError := Some errorText, attempts := attempts st @ [modelId]\<rparr>)
      | Ok content \<Rightarrow>
          (if or_default content [] = []
           then content_loop fetch rest (st\<lparr>attempts := attempts st @ [modelId]\<rparr>)
           else
             (case parse_posts (or_default content []) of
                NoMatch \<Rightarrow> content_loop fetch rest (st\<lparr>attempts := attempts st @ [modelId]\<rparr>)
              | ParseThrew \<Rightarrow>
                  content_loop fetch rest (st\<lparr>attempts := attempts st @ [modelId]\<rparr>)
              | Parsed p \<Rightarrow>
                  (if length_positive p
                   then st\<lparr>attempts := attempts st @ [modelId], posts := p\<rparr>
                   else content_loop fetch rest
                          (st\<lparr>attempts := attempts st @ [modelId], posts := p\<rparr>)))))"

definition contenidoia_fallback ::
  "(string \<Rightarrow> upstream) \<Rightarrow> post_count content_fields \<Rightarrow> response \<times> call list" where
  "contenidoia_fallback fetch req =
     (if falsy (businessType req)
      then (bad_request ''Falta el tipo de negocio (businessType)'', [])
      else
        (let n = post_count_clamp (postCount req);
             prompt = buildContentPrompt (prompt_data req n);
             msgs = [(''system'', content_system_prompt 32), (''user'', prompt)];
             st = content_loop fetch models
                    \<lparr>lastError = None, attempts = [], posts = JArray []\<rparr>
         in (if length_zero (posts st) then exhausted (lastError st)
             else \<lparr>status = 200, body = Posts (posts st)\<rparr>,
             calls_of msgs (attempts st))))"

section \<open>The single-model OpenRouter revision\<close>

definition openrouter_model :: string where
  "openrouter_model = ''google/gemma-7b-it:free''"

text \<open>
  \<^verbatim>\<open>if (!response.ok) { ... return res.status(response.status).json({ error: 'Error de OpenRouter', details: ... }); }\<close>
\<close>

definition openrouter_error :: "nat \<Rightarrow> string \<Rightarrow> response" where
  "openrouter_error code errorText =
     (case error_details (Some errorText) of
        None \<Rightarrow> internal_error TypeErrorMessage
      | Some d \<Rightarrow> \<lparr>status = code, body = ErrorDetails ''Error de OpenRouter'' (Detail d)\<rparr>)"

definition propiedadia_openrouter ::
  "(string \<Rightarrow> upstream) \<Rightarrow> property_fields \<Rightarrow> response \<times> call list" where
  "propiedadia_openrouter fetch req =
     (if falsy (propertyType req) \<or> falsy (location req)
      then (bad_request ''Faltan campos requeridos (propertyType, location)'', [])
      else
        (let prompt = buildPropertyPrompt req;
             msgs = [(''system'', property_system_prompt), (''user'', prompt)]
         in (case fetch openrouter_model of
               Threw msg \<Rightarrow> internal_error (Detail (JString msg))
             | NotOk code errorText \<Rightarrow> openrouter_error code errorText
             | Ok content \<Rightarrow> \<lparr>status = 200, body = Description (or_default content [])\<rparr>,
             calls_of msgs [openrouter_model])))"

text \<open>
  The content handler: a SyntaxError of the parse is caught and the posts are the
  built-in ones; without a match \<^verbatim>\<open>posts\<close> stays \<^verbatim>\<open>[]\<close>.
\<close>

definition contenidoia_openrouter ::
  "(string \<Rightarrow> upstream) \<Rightarrow> post_count content_fields \<Rightarrow> response \<times> call list" where
  "contenidoia_openrouter fetch req =
     (if falsy (businessType req)
      then (bad_request ''Falta el tipo de negocio (businessType)'', [])
      else
        (let n = post_count_clamp (postCount req);
             prompt = buildContentPrompt (prompt_data req n);
             msgs = [(''system'', content_system_prompt 24), (''user'', prompt)]
         in (case fetch openrouter_model of
               Threw msg \<Rightarrow> internal_error (Detail (JString msg))
             | NotOk code errorText \<Rightarrow> openrouter_error code errorText
             | Ok content \<Rightarrow>
                 (case parse_posts (or_default content []) of
                    NoMatch \<Rightarrow> \<lparr>status = 200, body = Posts (JArray [])\<rparr>
                  | ParseThrew \<Rightarrow>
                      \<lparr>status = 200,
                       body = Posts (JArray (generateFallbackPosts (businessType req) n))\<rparr>
                  | Parsed p \<Rightarrow> \<lparr>status = 200, body = Posts p\<rparr>),
             calls_of msgs [openrouter_model])))"

section \<open>The Inaia revision\<close>

text \<open>
  \<^verbatim>\<open>callInaiaAPI(messages, model)\<close>: the text of the response, or (\<^term>\<open>Inl\<close>) the message
  of the error it throws.
\<close>

definition callInaiaAPI :: "inaia_upstream \<Rightarrow> string + string" where
  "callInaiaAPI fetched =
     (case fetched of
        Aborted \<Rightarrow> Inl (''Timeout: Inaia API no respondi'' @ o_acute @ '' en 30 segundos'')
      | Failed msg \<Rightarrow> Inl msg
      | Answered code fullResponse \<Rightarrow>
          if \<not> (200 \<le> code \<and> code \<le> 299)
          then Inl (''Inaia API error ('' @ number_to_string (int code) @ ''): '' @ fullResponse)
          else if fullResponse = [] \<or> trim fullResponse = []
          then Inl ''Inaia returned empty response''
          else Inr fullResponse)"

definition propiedadia_inaia ::
  "(string \<Rightarrow> inaia_upstream) \<Rightarrow> property_fields \<Rightarrow> response \<times> call list" where
  "propiedadia_inaia fetch req =
     (if falsy (propertyType req) \<or> falsy (location req)
      then (bad_request ''Faltan campos requeridos (propertyType, location)'', [])
      else
        (let prompt = buildPropertyPrompt req;
             msgs = [(''system'', property_system_prompt), (''user'', prompt)]
         in (case callInaiaAPI (fetch ''kimi'') of
               Inl msg \<Rightarrow> internal_error (Detail (JString msg))
             | Inr desc \<Rightarrow>
                 if desc = [] \<or> trim desc = []
                 then \<lparr>status = 500,
                       body = ErrorDetails (''Error de IA: Inaia no retorn'' @ o_acute @ '' una respuesta v'' @ a_acute @ ''lida'')
                                (Detail (JString (''La respuesta est'' @ a_acute @ '' vac'' @ i_acute @ ''a'')))\<rparr>
                 else \<lparr>status = 200, body = Description desc\<rparr>,
             calls_of msgs [''kimi''])))"

definition contenidoia_inaia ::
  "(string \<Rightarrow> inaia_upstream) \<Rightarrow> post_count content_fields \<Rightarrow> response \<times> call list" where
  "contenidoia_inaia fetch req =
     (if falsy (businessType req)
      then (bad_request ''Falta el tipo de negocio (businessType)'', [])
      else
        (let n = post_count_clamp (postCount req);
             prompt = buildContentPrompt (prompt_data req n);
             msgs = [(''system'', content_system_prompt 16), (''user'', prompt)]
         in (case callInaiaAPI (fetch ''reasoning'') of
               Inl msg \<Rightarrow> internal_error (Detail (JString msg))
             | Inr content \<Rightarrow>
                 (case parse_posts content of
                    ParseThrew \<Rightarrow>
                      \<lparr>status = 500,
                       body = ErrorRaw ''Error parseando respuesta de IA'' SyntaxErrorMessage
                                (substring0 200 content)\<rparr>
                  | NoMatch \<Rightarrow>
                      \<lparr>status = 500,
                       body = ErrorRaw (''Error de IA: No se generaron posts v'' @ a_acute @ ''lidos'')
                                (Detail (JString (''La respuesta no contiene un array JSON v'' @ a_acute @ ''lido'')))
                                (substring0 200 content)\<rparr>
                  | Parsed p \<Rightarrow>
                      if length_zero p
                      then \<lparr>status = 500,
                            body = ErrorRaw (''Error de IA: No se generaron posts v'' @ a_acute @ ''lidos'')
                                     (Detail (JString (''La respuesta no contiene un array JSON v'' @ a_acute @ ''lido'')))
                                     (substring0 200 content)\<rparr>
                      else \<lparr>status = 200, body = Posts p\<rparr>),
             calls_of msgs [''reasoning''])))"

section \<open>The middleware in front of the routes\<close>

subsection \<open>The CORS origin callback\<close>

text \<open>\<^verbatim>\<open>s.split(',')\<close>; the empty string gives one empty piece.\<close>

fun split_comma :: "string \<Rightarrow> string list" where
  "split_comma [] = [[]]"
| "split_comma (c # cs) =
     (if c = CHR '','' then [] # split_comma cs
      else (case split_comma cs of
              [] \<Rightarrow> [[c]]
            | w # ws \<Rightarrow> (c # w) # ws))"

text \<open>
  \<^verbatim>\<open>process.env.ALLOWED_ORIGINS?.split(',') || ['http://localhost:5500']\<close>, from the
  value of the environment variable (\<^term>\<open>None\<close> when it is not set). An array is truthy.
\<close>

definition allowedOrigins :: "string option \<Rightarrow> string list" where
  "allowedOrigins env =
     (case env of
        None \<Rightarrow> [''http://localhost:5500'']
      | Some s \<Rightarrow> split_comma s)"

datatype revision = OpenRouter | Fallback | Inaia

text \<open>
  The \<^verbatim>\<open>origin\<close> function given to the \<^verbatim>\<open>cors\<close> package, called with the request's
  Origin header (\<^term>\<open>None\<close> when the request has none): \<^term>\<open>Inr True\<close> is
  \<^verbatim>\<open>callback(null, true)\<close>, \<^term>\<open>Inl msg\<close> is \<^verbatim>\<open>callback(new Error(msg))\<close>. The two later
  revisions put the origin into the message.
\<close>

definition cors_origin :: "revision \<Rightarrow> string list \<Rightarrow> string option \<Rightarrow> string + bool" where
  "cors_origin revn allowed origin =
     (if falsy origin then Inr True
      else if to_str origin \<in> set allowed then Inr True
      else Inl (if revn = OpenRouter then ''No permitido por CORS''
                else ''No permitido por CORS: '' @ to_str origin))"

text \<open>
  The package passes the request on to the rest of the chain when the callback gives
  \<^verbatim>\<open>true\<close>, and hands the error to Express (\<^verbatim>\<open>next(err)\<close>) otherwise, which then skips
  every route. \<open>route\<close> is what the rest of the chain answers.
\<close>

datatype 'a served = Rejected string | Reached 'a

definition cors_middleware ::
  "revision \<Rightarrow> string list \<Rightarrow> string option \<Rightarrow> 'a \<Rightarrow> 'a served" where
  "cors_middleware revn allowed origin route =
     (case cors_origin revn allowed origin of
        Inl msg \<Rightarrow> Rejected msg
      | Inr _ \<Rightarrow> Reached route)"

subsection \<open>The rate limiter\<close>

text \<open>
  The options given to \<^verbatim>\<open>rateLimit\<close>, the same in the three revisions: \<open>max_requests\<close>
  is the option \<^verbatim>\<open>max\<close> and \<open>limit_message\<close> the \<^verbatim>\<open>error\<close> of the option \<^verbatim>\<open>message\<close>. The
  options \<^verbatim>\<open>standardHeaders\<close> and \<^verbatim>\<open>legacyHeaders\<close> only choose response headers, which
  are not modelled.
\<close>

record limiter_options =
  windowMs :: nat
  max_requests :: nat
  limit_message :: string

definition limiter :: limiter_options where
  "limiter =
     \<lparr>windowMs = 60 * 1000, max_requests = 10,
      limit_message = ''Demasiadas solicitudes. Por favor espera un momento.''\<rparr>"

text \<open>
  Modelled from the spec: the counting itself is done by the \<^verbatim>\<open>express-rate-limit\<close>
  package, which is not among the repository's files. The spec describes a fixed
  window of \<open>windowMs\<close> milliseconds and at most \<open>max\<close> requests per client IP per window,
  each IP's counter being incremented and compared in one step; a request beyond the
  limit is answered with the configured message.

  The store maps a client IP to its hits in the current window and the time at which
  that window ends. \<open>rate_limit\<close> counts one request arriving at time \<open>now\<close>, and says
  whether it is let through.
\<close>

type_synonym hits = "string \<Rightarrow> (nat \<times> nat) option"

definition rate_limit :: "limiter_options \<Rightarrow> hits \<Rightarrow> nat \<Rightarrow> string \<Rightarrow> bool \<times> hits" where
  "rate_limit opts store now ip =
     (let entry = (case store ip of
                     None \<Rightarrow> (1, now + windowMs opts)
                   | Some (n, reset) \<Rightarrow>
                       if now < reset then (n + 1, reset) else (1, now + windowMs opts))
      in (fst entry \<le> max_requests opts, store(ip \<mapsto> entry)))"

text \<open>
  Modelled from the spec: \<^verbatim>\<open>app.use('/api/', limiter)\<close> puts the limiter in front of
  every path under \<^verbatim>\<open>/api/\<close>. The result is the response of the limiter when it stops
  the request (\<^term>\<open>None\<close> when the request goes on) and the new store.
\<close>

definition limiter_middleware ::
  "limiter_options \<Rightarrow> hits \<Rightarrow> nat \<Rightarrow> string \<Rightarrow> string \<Rightarrow> response option \<times> hits" where
  "limiter_middleware opts store now ip path =
     (if prefix ''/api/'' path then
        (let (allowed, store') = rate_limit opts store now ip
         in (if allowed then None
             else Some \<lparr>status = 429, body = ErrorOnly (limit_message opts)\<rparr>, store'))
      else (None, store))"

text \<open>
  Modelled from the spec: a sequence of requests \<open>(now, ip, path)\<close> served one after the
  other, with the limiter's answer to each.
\<close>

fun serve_requests ::
  "limiter_options \<Rightarrow> hits \<Rightarrow> (nat \<times> string \<times> string) list \<Rightarrow> response option list" where
  "serve_requests opts store [] = []"
| "serve_requests opts store ((now, ip, path) # rest) =
     fst (limiter_middleware opts store now ip path)
       # serve_requests opts (snd (limiter_middleware opts store now ip path)) rest"

text \<open>
  Modelled from the spec: the window in which each request of such a sequence is
  counted, named by the time at which it ends; \<^term>\<open>None\<close> for a request outside
  \<^verbatim>\<open>/api/\<close>, which the limiter does not count.
\<close>

fun serve_windows ::
  "limiter_options \<Rightarrow> hits \<Rightarrow> (nat \<times> string \<times> string) list \<Rightarrow> nat option list" where
  "serve_windows opts store [] = []"
| "serve_windows opts store ((now, ip, path) # rest) =
     (if prefix ''/api/'' path
      then map_option snd (snd (limiter_middleware opts store now ip path) ip)
      else None)
       # serve_windows opts (snd (limiter_middleware opts store now ip path)) rest"

section \<open>Notions used in the properties\<close>

text \<open>The request of the repository's test script, and a content request.\<close>

definition test_request :: property_fields where
  "test_request =
     \<lparr>propertyType = Some ''departamento'', rooms = Some ''2'', bathrooms = Some ''1'',
      size_field = Some ''60'', location = Some ''Santiago'', features = None, style = None\<rparr>"

definition cafe_request :: "post_count content_fields" where
  "cafe_request =
     \<lparr>businessType = Some ''cafeteria'', businessDesc = None, tone = None, network = None,
      postCount = PCNumber 7\<rparr>"

text \<open>A reply of a model that wraps its JSON array in prose.\<close>

definition example_reply :: string where
  "example_reply =
     ''Here you go:\<newline>'' @
     ''[{'' @ double_quote @ ''content'' @ double_quote @ '':'' @ double_quote @ ''hi'' @ double_quote @ '','' @ double_quote @ ''hashtags'' @ double_quote @ '':['' @ double_quote @ ''#a'' @ double_quote @ '']}]\<newline>'' @
     ''Enjoy!''"

text \<open>
  The fallback policy as a state machine: a candidate is tried after every candidate
  before it has failed, and no candidate is tried after a usable one. \<open>tried usable ms\<close>
  lists the candidates of \<open>ms\<close> that this policy tries, in order.
\<close>

definition tried :: "('m \<Rightarrow> bool) \<Rightarrow> 'm list \<Rightarrow> 'm list" where
  "tried usable ms =
     takeWhile (\<lambda>m. \<not> usable m) ms @ take 1 (dropWhile (\<lambda>m. \<not> usable m) ms)"

text \<open>
  The outcomes on which the loops stop (\<^verbatim>\<open>break\<close>): for the property handler a 2xx
  response with a non-empty content, for the content handler a 2xx response whose
  content holds a JSON array with at least one element.
\<close>

fun property_usable :: "upstream \<Rightarrow> bool" where
  "property_usable (Ok content) = (or_default content [] \<noteq> [])"
| "property_usable _ = False"

fun content_usable :: "upstream \<Rightarrow> bool" where
  "content_usable (Ok content) =
     (case parse_posts (or_default content []) of
        Parsed p \<Rightarrow> length_positive p
      | _ \<Rightarrow> False)"
| "content_usable _ = False"

text \<open>
  An upstream whose first three models fail with a transport error, a non-2xx status
  and an empty output, and whose fourth model answers.
\<close>

definition scripted :: "string \<Rightarrow> upstream" where
  "scripted m =
     (if m = ''meta-llama/llama-3.1-8b-instruct:free'' then Threw ''fetch failed''
      else if m = ''mistralai/mistral-7b-instruct:free'' then NotOk 503 ''Service Unavailable''
      else if m = ''google/gemma-7b-it:free'' then Ok (Some [])
      else Ok (Some example_reply))"

text \<open>
  An upstream whose first model answers 2xx with a content of three spaces, and whose
  other models answer with the reply above.
\<close>

definition blank_first :: "string \<Rightarrow> upstream" where
  "blank_first m =
     (if m = ''meta-llama/llama-3.1-8b-instruct:free'' then Ok (Some ''   '')
      else Ok (Some example_reply))"

text \<open>The response of the limiter to a request beyond the limit.\<close>

definition limited :: response where
  "limited =
     \<lparr>status = 429, body = ErrorOnly ''Demasiadas solicitudes. Por favor espera un momento.''\<rparr>"

text \<open>Eleven requests of one client to a path under \<^verbatim>\<open>/api/\<close>, one millisecond apart.\<close>

definition burst :: "(nat \<times> string \<times> string) list" where
  "burst = map (\<lambda>k. (1000 + k, ''203.0.113.7'', ''/api/health'')) [0..<11]"

text \<open>
  The requests of one client among those of a sequence, and the entries of a list of
  answers (one for each request of the sequence) that belong to that client's requests.
\<close>

definition of_client ::
  "string \<Rightarrow> (nat \<times> string \<times> string) list \<Rightarrow> (nat \<times> string \<times> string) list" where
  "of_client ip rs = filter (\<lambda>r. fst (snd r) = ip) rs"

definition answers_to :: "string \<Rightarrow> (nat \<times> string \<times> string) list \<Rightarrow> 'a list \<Rightarrow> 'a list" where
  "answers_to ip rs answers =
     map snd (filter (\<lambda>ra. fst (snd (fst ra)) = ip) (zip rs answers))"

text \<open>Whether the store holds, for a client, a window that has not ended at time \<open>now\<close>.\<close>

definition window_open :: "hits \<Rightarrow> string \<Rightarrow> nat \<Rightarrow> bool" where
  "window_open store ip now =
     (case store ip of None \<Rightarrow> False | Some (n, reset) \<Rightarrow> now < reset)"

text \<open>
  The number of requests of a client that were let through and counted in the window
  ending at \<open>t\<close>, given the answers and the windows of a sequence.
\<close>

definition let_through ::
  "string \<Rightarrow> nat \<Rightarrow> (nat \<times> string \<times> string) list \<Rightarrow> response option list \<Rightarrow>
   nat option list \<Rightarrow> nat" where
  "let_through ip t rs answers windows =
     length (filter (\<lambda>(r, a, w). fst (snd r) = ip \<and> a = None \<and> w = Some t)
               (zip rs (zip answers windows)))"

text \<open>
  The number of requests that a client's window ending at \<open>t\<close> can still let through:
  what is left of ten in that window when it is the current one, ten when it is yet
  to open, none when a later window is already current.
\<close>

definition room :: "hits \<Rightarrow> string \<Rightarrow> nat \<Rightarrow> nat" where
  "room store ip t =
     (case store ip of
        None \<Rightarrow> 10
      | Some (n, reset) \<Rightarrow> if reset = t then 10 - n else if reset < t then 10 else 0)"

text \<open>
  A request of a second client; the store after the eleven requests above; a store in
  which the first client has one request left in its window; and three requests at
  and after the end of the window that the eleven requests opened.
\<close>

definition other_client :: "nat \<times> string \<times> string" where
  "other_client = (1011, ''198.51.100.9'', ''/api/health'')"

definition after_burst :: hits where
  "after_burst = [''203.0.113.7'' \<mapsto> (11, 61000)]"

definition nearly_full :: hits where
  "nearly_full = [''203.0.113.7'' \<mapsto> (9, 62000)]"

definition next_window :: "(nat \<times> string \<times> string) list" where
  "next_window =
     [(61000, ''203.0.113.7'', ''/api/health''),
      (61001, ''198.51.100.9'', ''/api/health''),
      (61002, ''203.0.113.7'', ''/api/health'')]"

text \<open>
  The error text a failed attempt leaves in \<^verbatim>\<open>lastError\<close>: the message of a thrown error
  or the body of a non-2xx response. An unusable 2xx response leaves none. \<open>last_captured\<close>
  is the last such text over a list of models that were all fetched.
\<close>

fun captured :: "upstream \<Rightarrow> string option" where
  "captured (Threw msg) = Some msg"
| "captured (NotOk code errorText) = Some errorText"
| "captured (Ok content) = None"

definition last_captured :: "(string \<Rightarrow> upstream) \<Rightarrow> string list \<Rightarrow> string option" where
  "last_captured fetch ms =
     foldl (\<lambda>acc m. case captured (fetch m) of None \<Rightarrow> acc | Some e \<Rightarrow> Some e) None ms"

section \<open>Lemmas about the JavaScript library functions\<close>

subsection \<open>The JSON parser always consumes input\<close>

text \<open>
  Every lexer and parser function returns a text shorter than the one it was given, so
  the length tests in \<open>parse_elements\<close> and \<open>parse_members\<close> never fail.
\<close>

lemma lex_string_shorter: "lex_string s = Some (str, r) \<Longrightarrow> length r < length s"
proof (induction s arbitrary: str r rule: lex_string.induct)
  case 1
  then show ?case by simp
next
  case (2 c cs)
  show ?case
  proof (cases "c = CHR 0x22")
    case True
    with 2(4) show ?thesis by simp
  next
    case nq: False
    show ?thesis
    proof (cases "c = CHR 0x5C")
      case True
      show ?thesis
      proof (cases cs)
        case Nil
        with 2(4) nq True show ?thesis by simp
      next
        case (Cons e es)
        show ?thesis
        proof (cases "e = CHR ''u''")
          case u: True
          from 2(4) nq True Cons u obtain bytes n str' where
            ue: "unicode_escape es = Some (bytes, n)" and
            rest: "lex_string (drop n es) = Some (str', r)"
            by (auto split: option.splits)
          from 2(1) [OF nq True Cons u ue refl rest]
          have "length r < length (drop n es)" .
          with Cons show ?thesis by simp
        next
          case nu: False
          from 2(4) nq True Cons nu obtain d str' where
            se: "simple_escape e = Some d" and
            rest: "lex_string es = Some (str', r)"
            by (auto split: option.splits)
          from 2(2) [OF nq True Cons nu se rest]
          have "length r < length es" .
          with Cons show ?thesis by simp
        qed
      qed
    next
      case nb: False
      from 2(4) nq nb obtain str' where "\<not> (of_char c :: nat) < 0x20" "lex_string cs = Some (str', r)"
        by (auto split: if_splits)
      from 2(3) [OF nq nb this] show ?thesis by simp
    qed
  qed
qed

lemma lex_digits_shorter: "lex_digits s = Some (ds, r) \<Longrightarrow> length r < length s"
proof -
  assume a: "lex_digits s = Some (ds, r)"
  then have "takeWhile is_digit s \<noteq> []" "r = dropWhile is_digit s"
    by (auto simp: lex_digits_def split: if_splits)
  moreover have "length (takeWhile is_digit s) + length (dropWhile is_digit s) = length s"
    by (metis length_append takeWhile_dropWhile_id)
  ultimately show ?thesis by (cases "takeWhile is_digit s") auto
qed

lemma lex_int_part_shorter: "lex_int_part s = Some (ds, r) \<Longrightarrow> length r < length s"
  by (auto simp: lex_int_part_def split: list.splits if_splits dest: lex_digits_shorter)

lemma lex_fraction_le: "lex_fraction s = Some (ds, r) \<Longrightarrow> length r \<le> length s"
  by (auto simp: lex_fraction_def split: list.splits if_splits dest!: lex_digits_shorter)

lemma lex_exponent_le: "lex_exponent s = Some (ds, r) \<Longrightarrow> length r \<le> length s"
  by (auto simp: lex_exponent_def split: list.splits if_splits dest!: lex_digits_shorter)

lemma lex_number_shorter: "lex_number s = Some (n, r) \<Longrightarrow> length r < length s"
proof -
  assume a: "lex_number s = Some (n, r)"
  define s1 where "s1 = (case s of [] \<Rightarrow> s | c # cs \<Rightarrow> if c = CHR ''-'' then cs else s)"
  have s1: "length s1 \<le> length s" by (auto simp: s1_def split: list.splits)
  from a obtain ip s2 fp s3 ep where
    "lex_int_part s1 = Some (ip, s2)" "lex_fraction s2 = Some (fp, s3)" "lex_exponent s3 = Some (ep, r)"
    by (auto simp: lex_number_def s1_def Let_def split: list.splits if_splits option.splits)
  then have "length s2 < length s1" "length s3 \<le> length s2" "length r \<le> length s3"
    by (auto dest: lex_int_part_shorter lex_fraction_le lex_exponent_le)
  with s1 show ?thesis by simp
qed

lemma parse_shorter:
  "(\<forall>v r. parse_value s = Some (v, r) \<longrightarrow> length r < length s)"
  "(\<forall>vs r. parse_elements s' = Some (vs, r) \<longrightarrow> length r < length s')"
  "(\<forall>ms r. parse_members s'' = Some (ms, r) \<longrightarrow> length r < length s'')"
proof (induction s and s' and s'' rule: parse_value_parse_elements_parse_members.induct)
  case (1 s)
  show ?case
  proof (intro allI impI)
    fix v r
    assume a: "parse_value s = Some (v, r)"
    show "length r < length s"
    proof (cases "dropWhile is_json_ws s")
      case Nil
      with a show ?thesis by (simp add: parse_value.simps [of s])
    next
      case (Cons c cs)
      then have cs: "length cs < length s" by (rule dropWhile_eq_Cons_shorter)
      consider (arr) "c = CHR ''[''" | (obj) "c \<noteq> CHR ''[''" "c = CHR ''{''"
        | (other) "c \<noteq> CHR ''[''" "c \<noteq> CHR ''{''" by blast
      then show ?thesis
      proof cases
        case arr
        show ?thesis
        proof (cases "dropWhile is_json_ws cs")
          case Nil
          with a Cons arr show ?thesis by (simp add: parse_value.simps [of s])
        next
          case d: (Cons d ds)
          then have ds: "length ds < length cs" by (rule dropWhile_eq_Cons_shorter)
          show ?thesis
          proof (cases "d = CHR '']''")
            case True
            with a Cons arr d have "r = ds" by (simp add: parse_value.simps [of s])
            with ds cs show ?thesis by simp
          next
            case False
            with a Cons arr d obtain vs where "parse_elements (d # ds) = Some (vs, r)"
              by (auto simp: parse_value.simps [of s])
            with 1(1) [OF Cons arr d False] have "length r < length (d # ds)" by blast
            with ds cs show ?thesis by simp
          qed
        qed
      next
        case obj
        show ?thesis
        proof (cases "dropWhile is_json_ws cs")
          case Nil
          with a Cons obj show ?thesis by (simp add: parse_value.simps [of s])
        next
          case d: (Cons d ds)
          then have ds: "length ds < length cs" by (rule dropWhile_eq_Cons_shorter)
          show ?thesis
          proof (cases "d = CHR ''}''")
            case True
            with a Cons obj d have "r = ds" by (simp add: parse_value.simps [of s])
            with ds cs show ?thesis by simp
          next
            case False
            with a Cons obj d obtain ms where "parse_members (d # ds) = Some (ms, r)"
              by (auto simp: parse_value.simps [of s])
            with 1(2) [OF Cons obj(1) obj(2) d False] have "length r < length (d # ds)" by blast
            with ds cs show ?thesis by simp
          qed
        qed
      next
        case other
        with a Cons have "length r \<le> length cs"
          by (auto simp: parse_value.simps [of s] split: if_splits
              dest!: lex_string_shorter lex_number_shorter)
        with cs show ?thesis by simp
      qed
    qed
  qed
next
  case (2 s)
  show ?case
  proof (intro allI impI)
    fix vs r
    assume a: "parse_elements s = Some (vs, r)"
    then obtain v r1 where v: "parse_value s = Some (v, r1)"
      by (auto simp: parse_elements.simps [of s] split: option.splits)
    with 2(1) have r1: "length r1 < length s" by blast
    from a v obtain c cs where c: "dropWhile is_json_ws r1 = c # cs"
      by (auto simp: parse_elements.simps [of s] split: list.splits)
    then have cs: "length cs < length r1" by (rule dropWhile_eq_Cons_shorter)
    show "length r < length s"
    proof (cases "c = CHR '']''")
      case True
      with a v c have "r = cs" by (simp add: parse_elements.simps [of s])
      with cs r1 show ?thesis by simp
    next
      case False
      with a v c obtain vs' where g: "c = CHR '','' \<and> length cs < length s"
        and "parse_elements cs = Some (vs', r)"
        by (auto simp: parse_elements.simps [of s] split: if_splits)
      with 2(2) [OF v refl c False g] have "length r < length cs" by blast
      with cs r1 show ?thesis by simp
    qed
  qed
next
  case (3 s)
  show ?case
  proof (intro allI impI)
    fix ms r
    assume a: "parse_members s = Some (ms, r)"
    then obtain qs where s: "s = CHR 0x22 # qs"
      by (auto simp: parse_members.simps [of s] split: list.splits if_splits)
    note eq = parse_members.simps [of "CHR 0x22 # qs"]
    from a s have a': "parse_members (CHR 0x22 # qs) = Some (ms, r)" by simp
    from a' obtain k r1 where k: "lex_string qs = Some (k, r1)"
      by (auto simp: eq split: option.splits)
    from a' k obtain c cs where c: "dropWhile is_json_ws r1 = c # cs"
      by (auto simp: eq split: list.splits)
    from a' k c have g: "c = CHR '':'' \<and> length cs < length s"
      by (auto simp: eq s split: if_splits)
    from a' k c g obtain v r2 where v: "parse_value cs = Some (v, r2)"
      by (auto simp: eq s split: option.splits)
    with 3(1) [OF s refl k refl c g] have r2: "length r2 < length cs" by blast
    from a' k c g v obtain d ds where d: "dropWhile is_json_ws r2 = d # ds"
      by (auto simp: eq s split: list.splits)
    then have ds: "length ds < length r2" by (rule dropWhile_eq_Cons_shorter)
    show "length r < length s"
    proof (cases "d = CHR ''}''")
      case True
      with a' k c g v d have "r = ds" by (simp add: eq s)
      with ds r2 g show ?thesis by simp
    next
      case False
      with a' k c g v d obtain ms' where g2: "d = CHR '','' \<and> length ds < length s"
        and "parse_members (dropWhile is_json_ws ds) = Some (ms', r)"
        by (auto simp: eq s split: if_splits)
      with 3(2) [OF s refl k refl c g v refl d False g2]
      have "length r < length (dropWhile is_json_ws ds)" by blast
      moreover have "length (dropWhile is_json_ws ds) \<le> length ds" by (rule length_dropWhile_le)
      ultimately show ?thesis using g2 by simp
    qed
  qed
qed

text \<open>Hence the parser satisfies the equations without the length tests.\<close>

lemma parse_elements_unfold:
  "parse_elements s =
     (case parse_value s of
        None \<Rightarrow> None
      | Some (v, r) \<Rightarrow>
          (case dropWhile is_json_ws r of
             [] \<Rightarrow> None
           | c # cs \<Rightarrow>
               if c = CHR '']'' then Some ([v], cs)
               else if c = CHR '',''
               then map_option (\<lambda>(vs, r'). (v # vs, r')) (parse_elements cs)
               else None))"
proof (cases "parse_value s")
  case None
  then show ?thesis by (subst parse_elements.simps) simp
next
  case (Some a)
  obtain v r where a: "a = (v, r)" by (cases a)
  from Some a parse_shorter(1) [of s] have r: "length r < length s" by simp
  show ?thesis
  proof (cases "dropWhile is_json_ws r")
    case Nil
    with Some a show ?thesis by (subst parse_elements.simps) (simp del: dropWhile_eq_Nil_conv)
  next
    case (Cons c cs)
    with r dropWhile_eq_Cons_shorter [OF Cons] have "length cs < length s" by simp
    with Some a Cons show ?thesis by (subst parse_elements.simps) simp
  qed
qed

lemma parse_members_unfold:
  "parse_members s =
     (case s of
        [] \<Rightarrow> None
      | q # qs \<Rightarrow>
          if q = CHR 0x22 then
            (case lex_string qs of
               None \<Rightarrow> None
             | Some (k, r1) \<Rightarrow>
                 (case dropWhile is_json_ws r1 of
                    [] \<Rightarrow> None
                  | c # cs \<Rightarrow>
                      if c = CHR '':'' then
                        (case parse_value cs of
                           None \<Rightarrow> None
                         | Some (v, r2) \<Rightarrow>
                             (case dropWhile is_json_ws r2 of
                                [] \<Rightarrow> None
                              | d # ds \<Rightarrow>
                                  if d = CHR ''}'' then Some ([(k, v)], ds)
                                  else if d = CHR '',''
                                  then map_option (\<lambda>(ms, r'). ((k, v) # ms, r'))
                                         (parse_members (dropWhile is_json_ws ds))
                                  else None))
                      else None))
          else None)"
proof (cases s)
  case Nil
  then show ?thesis by (subst parse_members.simps) simp
next
  case s: (Cons q qs)
  show ?thesis
  proof (cases "q = CHR 0x22")
    case False
    with s show ?thesis by (subst parse_members.simps) simp
  next
    case q: True
    show ?thesis
    proof (cases "lex_string qs")
      case None
      with s q show ?thesis by (subst parse_members.simps) simp
    next
      case (Some a)
      obtain k r1 where a: "a = (k, r1)" by (cases a)
      from Some a lex_string_shorter have r1: "length r1 < length qs" by simp
      show ?thesis
      proof (cases "dropWhile is_json_ws r1")
        case Nil
        with s q Some a show ?thesis by (subst parse_members.simps) (simp del: dropWhile_eq_Nil_conv)
      next
        case c: (Cons c cs)
        with r1 dropWhile_eq_Cons_shorter [OF c] s have g1: "length cs < length s" by simp
        show ?thesis
        proof (cases "parse_value cs")
          case None
          with s q Some a c g1 show ?thesis by (subst parse_members.simps) simp
        next
          case v: (Some b)
          obtain v r2 where b: "b = (v, r2)" by (cases b)
          from v b parse_shorter(1) [of cs] have r2: "length r2 < length cs" by simp
          show ?thesis
          proof (cases "dropWhile is_json_ws r2")
            case Nil
            with s q Some a c g1 v b show ?thesis by (subst parse_members.simps) (simp del: dropWhile_eq_Nil_conv)
          next
            case d: (Cons d ds)
            with r2 g1 dropWhile_eq_Cons_shorter [OF d] have g2: "length ds < length s" by simp
            with s q Some a c g1 v b d show ?thesis by (subst parse_members.simps) simp
          qed
        qed
      qed
    qed
  qed
qed

subsection \<open>\<^verbatim>\<open>parseInt\<close> reads back the decimal numeral of an integer\<close>

lemma of_char_digit: "k < 10 \<Longrightarrow> (of_char (char_of (48 + k :: nat)) :: nat) = 48 + k"
  by simp

lemma digit_value_digit: "k < 10 \<Longrightarrow> digit_value 10 (char_of (48 + k :: nat)) = Some k"
  by (simp add: digit_value_def hex_value_def Let_def)

lemma digits_of_digits: "c \<in> set (digits_of n) \<Longrightarrow> \<exists>k<10. c = char_of (48 + k :: nat)"
proof (induction n rule: digits_of.induct)
  case (1 n)
  show ?case
  proof (cases "n < 10")
    case True
    with 1(2) show ?thesis by (subst (asm) digits_of.simps) auto
  next
    case False
    have m: "n mod 10 < 10" by simp
    from 1(2) False have "c \<in> set (digits_of (n div 10)) \<or> c = char_of (48 + n mod 10)"
      by (subst (asm) digits_of.simps) (auto simp del: of_nat_mod)
    then show ?thesis
    proof
      assume "c \<in> set (digits_of (n div 10))"
      then show ?thesis using 1(1) False by blast
    next
      assume "c = char_of (48 + n mod 10)"
      then show ?thesis using m by blast
    qed
  qed
qed

lemma digits_of_not_Nil: "digits_of n \<noteq> []"
  by (subst digits_of.simps) simp

lemma digits_value_snoc:
  "digits_value r (z @ [c]) = digits_value r z * r + the (digit_value r c)"
  by (simp add: digits_value_def)

lemma digits_value_digits_of: "digits_value 10 (digits_of n) = n"
proof (induction n rule: digits_of.induct)
  case (1 n)
  show ?case
  proof (cases "n < 10")
    case True
    then show ?thesis
      by (subst digits_of.simps) (simp add: digits_value_def digit_value_digit)
  next
    case False
    have "n mod 10 < 10" by simp
    then have "digit_value 10 (char_of (48 + n mod 10)) = Some (n mod 10)"
      by (rule digit_value_digit)
    with False 1 show ?thesis
      by (subst digits_of.simps) (simp add: digits_value_snoc)
  qed
qed

lemma takeWhile_digits_of:
  "takeWhile (\<lambda>c. digit_value 10 c \<noteq> None) (digits_of n) = digits_of n"
proof -
  have "digit_value 10 c \<noteq> None" if "c \<in> set (digits_of n)" for c
    using digits_of_digits [OF that] digit_value_digit by auto
  then show ?thesis by (simp add: takeWhile_eq_all_conv)
qed

lemma trim_start_keeps:
  assumes a: "(of_char a :: nat) < 0x80" "\<not> is_space1 a"
  shows "trim_start (a # s) = a # s"
proof -
  have n2: "\<not> is_space2 a b" for b using a by (auto simp: is_space2_def)
  have n3: "\<not> is_space3 a b c" for b c using a by (auto simp: is_space3_def)
  show ?thesis
  proof (cases s)
    case Nil
    then show ?thesis using a by simp
  next
    case (Cons b t)
    then show ?thesis using a n2 n3 by (cases t) simp_all
  qed
qed

lemma digit_plain:
  assumes "k < 10" and "c = char_of (48 + k :: nat)"
  shows "(of_char c :: nat) < 0x80" "\<not> is_space1 c" "c \<noteq> CHR ''-''" "c \<noteq> CHR ''+''"
    "c \<noteq> CHR ''x''" "c \<noteq> CHR ''X''"
proof -
  have v: "(of_char c :: nat) = 48 + k" using assms by simp
  show "(of_char c :: nat) < 0x80" using v assms by simp
  show "\<not> is_space1 c"
  proof
    assume "is_space1 c"
    then have "(of_char c :: nat) \<in> {9, 10, 11, 12, 13, 32}" by (auto simp: is_space1_def)
    with v show False by auto
  qed
  have "(of_char c :: nat) \<noteq> of_char CHR ''-''" using v by simp
  then show "c \<noteq> CHR ''-''" by blast
  have "(of_char c :: nat) \<noteq> of_char CHR ''+''" using v by simp
  then show "c \<noteq> CHR ''+''" by blast
  have "(of_char c :: nat) \<noteq> of_char CHR ''x''" using v assms(1) by simp
  then show "c \<noteq> CHR ''x''" by blast
  have "(of_char c :: nat) \<noteq> of_char CHR ''X''" using v assms(1) by simp
  then show "c \<noteq> CHR ''X''" by blast
qed

lemma strip_radix_digits_of: "strip_radix (digits_of n) = (10, digits_of n)"
proof -
  have x: "d \<noteq> CHR ''x'' \<and> d \<noteq> CHR ''X''" if "d \<in> set (digits_of n)" for d
    using digits_of_digits [OF that] digit_plain(5,6) by blast
  have "take 2 (digits_of n) \<noteq> ''0x'' \<and> take 2 (digits_of n) \<noteq> ''0X''"
  proof (cases "digits_of n")
    case Nil
    then show ?thesis by simp
  next
    case (Cons c cs)
    then show ?thesis using x by (cases cs) auto
  qed
  then show ?thesis by (simp add: strip_radix_def)
qed

lemma strip_sign_digits_of: "strip_sign (digits_of n) = (False, digits_of n)"
proof (cases "digits_of n")
  case Nil
  then show ?thesis by (simp add: strip_sign_def)
next
  case (Cons c cs)
  then obtain k where "k < 10" "c = char_of (48 + k :: nat)"
    using digits_of_digits [of c n] by auto
  from digit_plain(3,4) [OF this] Cons show ?thesis by (simp add: strip_sign_def)
qed

lemma trim_start_digits_of: "trim_start (digits_of n) = digits_of n"
proof (cases "digits_of n")
  case Nil
  then show ?thesis by simp
next
  case (Cons c cs)
  then obtain k where "k < 10" "c = char_of (48 + k :: nat)"
    using digits_of_digits [of c n] by auto
  from digit_plain(1,2) [OF this] Cons show ?thesis by (simp add: trim_start_keeps)
qed

lemma parseInt_digits_of: "parseInt (digits_of n) = Some (int n)"
  by (simp add: parseInt_def trim_start_digits_of strip_sign_digits_of strip_radix_digits_of
      takeWhile_digits_of digits_value_digits_of digits_of_not_Nil del: not_None_eq)

lemma parseInt_minus_digits_of: "parseInt (CHR ''-'' # digits_of n) = Some (- int n)"
proof -
  have "trim_start (CHR ''-'' # digits_of n) = CHR ''-'' # digits_of n"
    by (rule trim_start_keeps) (simp_all add: is_space1_def)
  then show ?thesis
    by (simp add: parseInt_def strip_sign_def strip_radix_digits_of
        takeWhile_digits_of digits_value_digits_of digits_of_not_Nil del: not_None_eq)
qed

lemma parseInt_number_to_string: "parseInt (number_to_string i) = Some i"
  by (simp add: number_to_string_def parseInt_digits_of parseInt_minus_digits_of)

lemma post_count_clamp_number:
  "post_count_clamp (PCNumber n) = (if n = 0 then 5 else min n 30)"
  by (simp add: post_count_clamp_def parseInt_number_to_string)

lemma post_count_clamp_absent: "post_count_clamp PCAbsent = 5"
  by (simp add: post_count_clamp_def parseInt_def strip_sign_def strip_radix_def
      digit_value_def hex_value_def is_space1_def is_space2_def is_space3_def)

lemma post_count_clamp_le: "post_count_clamp pc \<le> 30"
  by (simp add: post_count_clamp_def)

subsection \<open>The match of the regular expression\<close>

lemma greedy_rest_None_iff: "greedy_rest s = None \<longleftrightarrow> CHR '']'' \<notin> set s"
  by (induction s) (auto split: option.splits)

lemma greedy_rest_last:
  "CHR '']'' \<notin> set suf \<Longrightarrow> greedy_rest (mid @ CHR '']'' # suf) = Some (mid @ [CHR '']''])"
proof (induction mid)
  case Nil
  then have "greedy_rest suf = None" by (simp add: greedy_rest_None_iff)
  then show ?case by simp
next
  case (Cons c mid)
  then show ?case by simp
qed

lemma greedy_rest_Some_iff:
  "greedy_rest s = Some m \<longleftrightarrow>
     (\<exists>mid suf. s = mid @ CHR '']'' # suf \<and> CHR '']'' \<notin> set suf \<and> m = mid @ [CHR '']''])"
proof
  assume m: "greedy_rest s = Some m"
  then have "CHR '']'' \<in> set s" using greedy_rest_None_iff [of s] by auto
  then obtain mid suf where s: "s = mid @ CHR '']'' # suf" "CHR '']'' \<notin> set suf"
    by (auto dest: split_list_last)
  with m greedy_rest_last [of suf mid] show
    "\<exists>mid suf. s = mid @ CHR '']'' # suf \<and> CHR '']'' \<notin> set suf \<and> m = mid @ [CHR '']'']"
    by auto
next
  assume "\<exists>mid suf. s = mid @ CHR '']'' # suf \<and> CHR '']'' \<notin> set suf \<and> m = mid @ [CHR '']'']"
  then show "greedy_rest s = Some m" by (auto simp: greedy_rest_last)
qed

lemma jsonMatch_first_to_last:
  "CHR ''['' \<notin> set pre \<Longrightarrow> CHR '']'' \<notin> set suf \<Longrightarrow>
   jsonMatch (pre @ CHR ''['' # mid @ CHR '']'' # suf) = Some (CHR ''['' # mid @ [CHR '']''])"
  by (induction pre) (auto simp: greedy_rest_last)

lemma jsonMatch_Some_split:
  "jsonMatch s = Some m \<Longrightarrow>
     \<exists>pre mid suf. s = pre @ CHR ''['' # mid @ CHR '']'' # suf \<and> CHR ''['' \<notin> set pre
        \<and> CHR '']'' \<notin> set suf \<and> m = CHR ''['' # mid @ [CHR '']'']"
proof (induction s)
  case Nil
  then show ?case by simp
next
  case (Cons c s)
  show ?case
  proof (cases "c = CHR ''[''")
    case True
    show ?thesis
    proof (cases "greedy_rest s")
      case None
      then have no: "CHR '']'' \<notin> set s" by (simp add: greedy_rest_None_iff)
      from Cons.prems True None have "jsonMatch s = Some m" by simp
      from Cons.IH [OF this] no show ?thesis by auto
    next
      case (Some r)
      then obtain mid suf where "s = mid @ CHR '']'' # suf" "CHR '']'' \<notin> set suf" "r = mid @ [CHR '']'']"
        using greedy_rest_Some_iff [of s r] by auto
      moreover from Cons.prems True Some have "m = c # r" by simp
      ultimately have "c # s = [] @ CHR ''['' # mid @ CHR '']'' # suf \<and> CHR ''['' \<notin> set []
          \<and> CHR '']'' \<notin> set suf \<and> m = CHR ''['' # mid @ [CHR '']'']"
        using True by simp
      then show ?thesis by blast
    qed
  next
    case False
    with Cons.prems have "jsonMatch s = Some m" by simp
    from Cons.IH [OF this] obtain pre mid suf where
      "s = pre @ CHR ''['' # mid @ CHR '']'' # suf" "CHR ''['' \<notin> set pre"
      "CHR '']'' \<notin> set suf" "m = CHR ''['' # mid @ [CHR '']'']" by blast
    then have "c # s = (c # pre) @ CHR ''['' # mid @ CHR '']'' # suf \<and> CHR ''['' \<notin> set (c # pre)
          \<and> CHR '']'' \<notin> set suf \<and> m = CHR ''['' # mid @ [CHR '']'']"
      using False by simp
    then show ?thesis by blast
  qed
qed

lemma parse_posts_example:
  "parse_posts example_reply =
     Parsed (JArray [JObject [(''content'', JString ''hi''), (''hashtags'', JArray [JString ''#a''])]])"
  by (simp add: parse_posts_def example_reply_def double_quote_def JSON_parse_def
      parse_value.simps parse_elements.simps parse_members.simps is_json_ws_def)

lemma example_reply_not_Nil: "example_reply \<noteq> []"
  by (simp add: example_reply_def)

section \<open>Lemmas about the loops over the candidate models\<close>

lemma tried_Nil: "tried usable [] = []"
  by (simp add: tried_def)

lemma tried_Cons: "tried usable (m # ms) = (if usable m then [m] else m # tried usable ms)"
  by (simp add: tried_def)

lemma tried_all_unusable: "\<forall>m\<in>set ms. \<not> usable m \<Longrightarrow> tried usable ms = ms"
  by (induction ms) (simp_all add: tried_Nil tried_Cons)

lemma tried_first_usable:
  "\<forall>m\<in>set pre. \<not> usable m \<Longrightarrow> usable m \<Longrightarrow> tried usable (pre @ m # suf) = pre @ [m]"
  by (induction pre) (simp_all add: tried_Cons)

lemma parse_posts_empty: "parse_posts [] = NoMatch"
  by (simp add: parse_posts_def)

lemma property_loop_attempts:
  "attempts (property_loop fetch ms st) = attempts st @ tried (\<lambda>m. property_usable (fetch m)) ms"
proof (induction ms arbitrary: st)
  case Nil
  show ?case by (simp add: tried_Nil)
next
  case (Cons m ms)
  show ?case
    by (cases "fetch m") (simp_all add: Cons.IH tried_Cons)
qed

lemma content_loop_attempts:
  "attempts (content_loop fetch ms st) = attempts st @ tried (\<lambda>m. content_usable (fetch m)) ms"
proof (induction ms arbitrary: st)
  case Nil
  show ?case by (simp add: tried_Nil)
next
  case (Cons m ms)
  show ?case
  proof (cases "fetch m")
    case (Ok content)
    show ?thesis
    proof (cases "or_default content [] = []")
      case True
      with Ok show ?thesis by (simp add: Cons.IH tried_Cons parse_posts_empty)
    next
      case False
      with Ok show ?thesis
        by (cases "parse_posts (or_default content [])") (simp_all add: Cons.IH tried_Cons)
    qed
  qed (simp_all add: Cons.IH tried_Cons)
qed

lemma property_loop_first_usable:
  "\<forall>m\<in>set pre. \<not> property_usable (fetch m) \<Longrightarrow> fetch m = Ok content \<Longrightarrow>
   or_default content [] \<noteq> [] \<Longrightarrow>
   description (property_loop fetch (pre @ m # suf) st) = or_default content []"
proof (induction pre arbitrary: st)
  case Nil
  then show ?case by simp
next
  case (Cons x pre)
  then show ?case by (cases "fetch x") simp_all
qed

lemma content_loop_first_usable:
  "\<forall>m\<in>set pre. \<not> content_usable (fetch m) \<Longrightarrow> fetch m = Ok content \<Longrightarrow>
   parse_posts (or_default content []) = Parsed p \<Longrightarrow> length_positive p \<Longrightarrow>
   posts (content_loop fetch (pre @ m # suf) st) = p"
proof (induction pre arbitrary: st)
  case Nil
  then show ?case by (auto simp: parse_posts_empty)
next
  case (Cons x pre)
  show ?case
  proof (cases "fetch x")
    case (Ok c)
    with Cons show ?thesis
      by (cases "parse_posts (or_default c [])") (simp_all add: parse_posts_empty)
  qed (use Cons in simp_all)
qed

lemma models_split: "models = take 3 models @ models ! 3 # []"
  by (simp add: models_def)

lemma calls_of_models: "map model (calls_of msgs ids) = ids"
  by (simp add: calls_of_def comp_def)

text \<open>
  The order of the attempts. In the revision with four candidate models, the models
  fetched by a valid request are those the policy \<open>tried\<close> lists: every candidate up to
  the first usable one, in list order, and none after it. A transport error, a non-2xx
  status, an absent or empty content and, for the content handler only, a content
  without a bracketed span, with a span that does not parse or with an empty array
  are not usable. When the first three candidates are not usable and the fourth
  answers, the response is the 200 built from the fourth answer and the four models,
  which are distinct, were fetched in order.
\<close>

lemma fallback_order:
  "(\<not> falsy (propertyType req) \<and> \<not> falsy (location req) \<longrightarrow>
      map model (snd (propiedadia_fallback fetch req))
        = tried (\<lambda>m. property_usable (fetch m)) models
      \<and> ((\<forall>m\<in>set (take 3 models). \<not> property_usable (fetch m))
           \<and> fetch (models ! 3) = Ok (Some d) \<and> d \<noteq> [] \<longrightarrow>
         fst (propiedadia_fallback fetch req) = \<lparr>status = 200, body = Description d\<rparr>
         \<and> map model (snd (propiedadia_fallback fetch req)) = models))
   \<and> (\<not> falsy (businessType creq) \<longrightarrow>
      map model (snd (contenidoia_fallback fetch creq))
        = tried (\<lambda>m. content_usable (fetch m)) models
      \<and> ((\<forall>m\<in>set (take 3 models). \<not> content_usable (fetch m))
           \<and> fetch (models ! 3) = Ok (Some c) \<and> parse_posts c = Parsed p \<and> length_positive p \<longrightarrow>
         fst (contenidoia_fallback fetch creq) = \<lparr>status = 200, body = Posts p\<rparr>
         \<and> map model (snd (contenidoia_fallback fetch creq)) = models))
   \<and> \<not> property_usable (Threw e) \<and> \<not> property_usable (NotOk code txt)
   \<and> \<not> property_usable (Ok None) \<and> \<not> property_usable (Ok (Some []))
   \<and> \<not> content_usable (Threw e) \<and> \<not> content_usable (NotOk code txt)
   \<and> \<not> content_usable (Ok None) \<and> \<not> content_usable (Ok (Some []))
   \<and> (parse_posts c' = NoMatch \<or> parse_posts c' = ParseThrew
        \<or> parse_posts c' = Parsed (JArray []) \<longrightarrow> \<not> content_usable (Ok (Some c')))
   \<and> length models = 4 \<and> distinct models"
proof -
  have prop_order: "map model (snd (propiedadia_fallback fetch req))
        = tried (\<lambda>m. property_usable (fetch m)) models"
    if "\<not> falsy (propertyType req)" "\<not> falsy (location req)"
    using that by (simp add: propiedadia_fallback_def Let_def calls_of_models property_loop_attempts)
  have prop_scenario: "fst (propiedadia_fallback fetch req) = \<lparr>status = 200, body = Description d\<rparr>
         \<and> map model (snd (propiedadia_fallback fetch req)) = models"
    if valid: "\<not> falsy (propertyType req)" "\<not> falsy (location req)"
      and fails: "\<forall>m\<in>set (take 3 models). \<not> property_usable (fetch m)"
      and last: "fetch (models ! 3) = Ok (Some d)" "d \<noteq> []"
  proof -
    have usable: "property_usable (fetch (models ! 3))" using last by simp
    have "description (property_loop fetch (take 3 models @ models ! 3 # []) st) = d" for st
      using property_loop_first_usable [OF fails last(1), of "[]" st] last(2) by simp
    then have descr: "description (property_loop fetch models st) = d" for st
      using models_split by simp
    have "tried (\<lambda>m. property_usable (fetch m)) (take 3 models @ models ! 3 # []) = take 3 models @ [models ! 3]"
      using tried_first_usable [of "take 3 models" "\<lambda>m. property_usable (fetch m)" "models ! 3" "[]"] fails usable
      by simp
    then have order: "tried (\<lambda>m. property_usable (fetch m)) models = models"
      using models_split by simp
    show ?thesis
      using prop_order [OF valid] order valid last(2)
      by (simp add: propiedadia_fallback_def Let_def descr)
  qed
  have cont_order: "map model (snd (contenidoia_fallback fetch creq))
        = tried (\<lambda>m. content_usable (fetch m)) models"
    if "\<not> falsy (businessType creq)"
    using that by (simp add: contenidoia_fallback_def Let_def calls_of_models content_loop_attempts)
  have cont_scenario: "fst (contenidoia_fallback fetch creq) = \<lparr>status = 200, body = Posts p\<rparr>
         \<and> map model (snd (contenidoia_fallback fetch creq)) = models"
    if valid: "\<not> falsy (businessType creq)"
      and fails: "\<forall>m\<in>set (take 3 models). \<not> content_usable (fetch m)"
      and last: "fetch (models ! 3) = Ok (Some c)" "parse_posts c = Parsed p" "length_positive p"
  proof -
    have c_ne: "c \<noteq> []" using last(2) by (auto simp: parse_posts_empty)
    have pp: "parse_posts (or_default (Some c) []) = Parsed p" using last(2) c_ne by simp
    have usable: "content_usable (fetch (models ! 3))" using last pp by simp
    have "posts (content_loop fetch (take 3 models @ models ! 3 # []) st) = p" for st
      using content_loop_first_usable [OF fails last(1) pp last(3), of "[]" st] by simp
    then have ps: "posts (content_loop fetch models st) = p" for st
      using models_split by simp
    have "tried (\<lambda>m. content_usable (fetch m)) (take 3 models @ models ! 3 # []) = take 3 models @ [models ! 3]"
      using tried_first_usable [of "take 3 models" "\<lambda>m. content_usable (fetch m)" "models ! 3" "[]"] fails usable
      by simp
    then have order: "tried (\<lambda>m. content_usable (fetch m)) models = models"
      using models_split by simp
    have nz: "\<not> length_zero p" using last(3)
      by (auto simp: length_zero_def length_positive_def split: option.splits)
    show ?thesis
      using cont_order [OF valid] order valid nz
      by (simp add: contenidoia_fallback_def Let_def ps)
  qed
  have empty_posts: "\<not> content_usable (Ok (Some c'))"
    if "parse_posts c' = NoMatch \<or> parse_posts c' = ParseThrew \<or> parse_posts c' = Parsed (JArray [])"
    using that by (cases "c' = []") (auto simp: parse_posts_empty length_positive_def)
  have "length models = 4 \<and> distinct models" by (simp add: models_def)
  then show ?thesis
    using prop_order prop_scenario cont_order cont_scenario empty_posts
    by (simp add: parse_posts_empty)
qed

lemma fallback_order_scripted:
  "fst (propiedadia_fallback scripted test_request) = \<lparr>status = 200, body = Description example_reply\<rparr>
   \<and> map model (snd (propiedadia_fallback scripted test_request)) = models
   \<and> fst (contenidoia_fallback scripted cafe_request) =
       \<lparr>status = 200,
        body = Posts (JArray [JObject [(''content'', JString ''hi''),
                                       (''hashtags'', JArray [JString ''#a''])]])\<rparr>
   \<and> map model (snd (contenidoia_fallback scripted cafe_request)) = models
   \<and> length models = 4"
proof -
  have v: "\<not> falsy (propertyType test_request)" "\<not> falsy (location test_request)"
    "\<not> falsy (businessType cafe_request)"
    by (simp_all add: test_request_def cafe_request_def)
  have f: "\<forall>m\<in>set (take 3 models). \<not> property_usable (scripted m)"
    "\<forall>m\<in>set (take 3 models). \<not> content_usable (scripted m)"
    by (simp_all add: models_def scripted_def parse_posts_empty)
  have l: "scripted (models ! 3) = Ok (Some example_reply)"
    by (simp add: models_def scripted_def)
  have p: "length_positive (JArray [JObject [(''content'', JString ''hi''),
                                       (''hashtags'', JArray [JString ''#a''])]])"
    by (simp add: length_positive_def)
  note policy = fallback_order [of test_request scripted example_reply cafe_request example_reply
        "JArray [JObject [(''content'', JString ''hi''), (''hashtags'', JArray [JString ''#a''])]]"
        "[]" 0 "[]" "[]"]
  have "fst (propiedadia_fallback scripted test_request)
          = \<lparr>status = 200, body = Description example_reply\<rparr>
        \<and> map model (snd (propiedadia_fallback scripted test_request)) = models"
    using policy v f(1) l example_reply_not_Nil by blast
  moreover have "fst (contenidoia_fallback scripted cafe_request) =
       \<lparr>status = 200,
        body = Posts (JArray [JObject [(''content'', JString ''hi''),
                                       (''hashtags'', JArray [JString ''#a''])]])\<rparr>
      \<and> map model (snd (contenidoia_fallback scripted cafe_request)) = models"
    using policy v f(2) l p parse_posts_example by blast
  ultimately show ?thesis by (simp add: models_def)
qed

section \<open>Lemmas about the exhaustion of the candidates\<close>

lemma JSON_parse_null: "JSON_parse ''null'' = Some JNull"
  by (simp add: JSON_parse_def parse_value.simps is_json_ws_def)

lemma error_details_null: "error_details None = None"
  by (simp add: error_details_def JSON_parse_null)

lemma error_details_None_iff: "error_details (Some e) = None \<longleftrightarrow> JSON_parse e = Some JNull"
  by (auto simp: error_details_def Let_def split: option.splits)

lemma error_details_derived:
  assumes "error_details (Some e) = Some d"
  shows "d = JString e
     \<or> (\<exists>j. JSON_parse e = Some j
          \<and> (get_member j ''message'' = Some d
              \<or> (\<exists>err. get_member j ''error'' = Some err \<and> get_member err ''message'' = Some d)))"
proof (cases "JSON_parse e")
  case None
  with assms show ?thesis
    by (auto simp: error_details_def Let_def split: if_splits)
next
  case (Some j)
  show ?thesis
  proof (cases "get_member j ''error''")
    case None
    with Some assms show ?thesis
      by (cases "get_member j ''message''") (auto simp: error_details_def Let_def split: if_splits)
  next
    case err: (Some err)
    show ?thesis
    proof (cases "optional_message (Some err)")
      case None
      with Some err assms show ?thesis
        by (cases "get_member j ''message''") (auto simp: error_details_def Let_def split: if_splits)
    next
      case m: (Some m)
      then have "get_member err ''message'' = Some m" by (cases err) simp_all
      with Some err m assms show ?thesis
        by (cases "get_member j ''message''") (auto simp: error_details_def Let_def split: if_splits)
    qed
  qed
qed

lemma exhausted_status: "status (exhausted e) = 500"
  by (simp add: exhausted_def internal_error_def split: option.splits)

lemma property_loop_exhausted:
  "\<forall>m\<in>set ms. \<not> property_usable (fetch m) \<Longrightarrow> description st = [] \<Longrightarrow>
   description (property_loop fetch ms st) = []
   \<and> lastError (property_loop fetch ms st)
       = foldl (\<lambda>acc m. case captured (fetch m) of None \<Rightarrow> acc | Some e \<Rightarrow> Some e) (lastError st) ms"
proof (induction ms arbitrary: st)
  case Nil
  then show ?case by simp
next
  case (Cons m ms)
  then show ?case by (cases "fetch m") simp_all
qed

lemma JSON_parse_bracket_array:
  "JSON_parse (CHR ''['' # s) = Some v \<Longrightarrow> \<exists>xs. v = JArray xs"
  by (auto simp: JSON_parse_def parse_value.simps [of "CHR ''['' # s"] is_json_ws_def
      split: option.splits list.splits if_splits)

lemma parse_posts_array: "parse_posts c = Parsed p \<Longrightarrow> \<exists>xs. p = JArray xs"
proof -
  assume p: "parse_posts c = Parsed p"
  then obtain span where s: "jsonMatch c = Some span" "JSON_parse span = Some p"
    by (auto simp: parse_posts_def split: option.splits)
  from jsonMatch_Some_split [OF s(1)] obtain r where "span = CHR ''['' # r" by auto
  with s(2) show ?thesis using JSON_parse_bracket_array by blast
qed

lemma content_loop_exhausted:
  "\<forall>m\<in>set ms. \<not> content_usable (fetch m) \<Longrightarrow> posts st = JArray [] \<Longrightarrow>
   posts (content_loop fetch ms st) = JArray []
   \<and> lastError (content_loop fetch ms st)
       = foldl (\<lambda>acc m. case captured (fetch m) of None \<Rightarrow> acc | Some e \<Rightarrow> Some e) (lastError st) ms"
proof (induction ms arbitrary: st)
  case Nil
  then show ?case by simp
next
  case (Cons m ms)
  show ?case
  proof (cases "fetch m")
    case (Ok content)
    show ?thesis
    proof (cases "parse_posts (or_default content [])")
      case (Parsed p)
      then obtain xs where "p = JArray xs" using parse_posts_array by blast
      moreover from Cons.prems(1) Ok Parsed have "\<not> length_positive p" by simp
      ultimately have "p = JArray []" by (simp add: length_positive_def)
      with Cons Ok Parsed show ?thesis by simp
    qed (use Cons Ok in simp_all)
  qed (use Cons in simp_all)
qed

lemma fallback_exhaustion:
  "\<not> falsy (propertyType req) \<Longrightarrow> \<not> falsy (location req) \<Longrightarrow>
   \<forall>m\<in>set models. \<not> property_usable (fetch m) \<Longrightarrow>
   fst (propiedadia_fallback fetch req) = exhausted (last_captured fetch models)
   \<and> status (fst (propiedadia_fallback fetch req)) = 500
   \<and> map model (snd (propiedadia_fallback fetch req)) = models"
  using property_loop_exhausted [of models fetch "\<lparr>lastError = None, attempts = [], description = []\<rparr>"]
  by (simp add: propiedadia_fallback_def Let_def last_captured_def exhausted_status
      calls_of_models property_loop_attempts tried_all_unusable)

lemma content_fallback_exhaustion:
  "\<not> falsy (businessType req) \<Longrightarrow>
   \<forall>m\<in>set models. \<not> content_usable (fetch m) \<Longrightarrow>
   fst (contenidoia_fallback fetch req) = exhausted (last_captured fetch models)
   \<and> status (fst (contenidoia_fallback fetch req)) = 500
   \<and> map model (snd (contenidoia_fallback fetch req)) = models"
  using content_loop_exhausted [of models fetch "\<lparr>lastError = None, attempts = [], posts = JArray []\<rparr>"]
  by (simp add: contenidoia_fallback_def Let_def last_captured_def exhausted_status
      calls_of_models content_loop_attempts tried_all_unusable length_zero_def)

section \<open>Lemmas about the other handlers and the helpers\<close>

lemma length_templates: "length (templates b) = 5"
  by (simp add: templates_def)

lemma length_generateFallbackPosts: "length (generateFallbackPosts b n) \<le> 5"
  by (auto simp: generateFallbackPosts_def slice0_def length_templates)

lemma JSON_parse_trailing_comma: "JSON_parse ''[1,]'' = None"
  by (simp add: JSON_parse_def parse_value.simps parse_elements.simps is_json_ws_def
      lex_number_def lex_int_part_def lex_digits_def lex_fraction_def lex_exponent_def is_digit_def)

lemma callInaiaAPI_not_blank: "callInaiaAPI fetched = Inr txt \<Longrightarrow> txt \<noteq> [] \<and> trim txt \<noteq> []"
  by (auto simp: callInaiaAPI_def split: inaia_upstream.splits if_splits)

lemma propiedadia_inaia_responses:
  "\<not> falsy (propertyType req) \<Longrightarrow> \<not> falsy (location req) \<Longrightarrow>
   (\<exists>d. fst (propiedadia_inaia fetch req) = \<lparr>status = 200, body = Description d\<rparr>
         \<and> d \<noteq> [] \<and> trim d \<noteq> [])
   \<or> (\<exists>e d. fst (propiedadia_inaia fetch req) = \<lparr>status = 500, body = ErrorDetails e d\<rparr>)"
  by (cases "callInaiaAPI (fetch ''kimi'')")
     (auto simp: propiedadia_inaia_def Let_def internal_error_def dest: callInaiaAPI_not_blank)

lemma unrecognized_is_default:
  "map_of table (to_str key) = None \<Longrightarrow> object_prototype_member (to_str key) = None \<Longrightarrow>
   or_default (table_lookup table key) d = d"
  by (simp add: table_lookup_def)

lemma missing_is_default:
  "or_default (table_lookup styleDescriptions None) d = d"
  "or_default (table_lookup toneDescriptions None) d = d"
  "or_default (table_lookup networkFormats None) d = d"
  by (simp_all add: table_lookup_def styleDescriptions_def toneDescriptions_def networkFormats_def
      object_prototype_member_def)

lemma content_calls_messages:
  "c \<in> set (snd (contenidoia_openrouter fetch req)) \<Longrightarrow>
     messages c = [(''system'', content_system_prompt 24),
                   (''user'', buildContentPrompt (prompt_data req (post_count_clamp (postCount req))))]"
  "c \<in> set (snd (contenidoia_fallback fetch req)) \<Longrightarrow>
     messages c = [(''system'', content_system_prompt 32),
                   (''user'', buildContentPrompt (prompt_data req (post_count_clamp (postCount req))))]"
  "c \<in> set (snd (contenidoia_inaia ifetch req)) \<Longrightarrow>
     messages c = [(''system'', content_system_prompt 16),
                   (''user'', buildContentPrompt (prompt_data req (post_count_clamp (postCount req))))]"
  by (auto simp: contenidoia_openrouter_def contenidoia_fallback_def contenidoia_inaia_def
      Let_def calls_of_def split: if_splits)

lemma number_to_string_7: "number_to_string 7 = ''7''"
  by code_simp

section \<open>Lemmas about the rate limiter\<close>

lemma serve_requests_in_window:
  "store ip = Some (n, reset) \<Longrightarrow>
   \<forall>r\<in>set rs. fst r < reset \<and> fst (snd r) = ip \<and> prefix ''/api/'' (snd (snd r)) \<Longrightarrow>
   serve_requests limiter store rs =
     map (\<lambda>k. if n + k < 10 then None else Some limited) [0..<length rs]"
proof (induction rs arbitrary: store n)
  case Nil
  show ?case by simp
next
  case (Cons r rs)
  obtain now i path where r: "r = (now, i, path)" by (cases r) auto
  from Cons.prems r have now: "now < reset" and i: "i = ip" and path: "prefix ''/api/'' path"
    by auto
  define store' where "store' = store(ip \<mapsto> (n + 1, reset))"
  have step: "rate_limit limiter store now ip = (n + 1 \<le> 10, store')"
    using Cons.prems(1) now by (simp add: rate_limit_def store'_def limiter_def)
  have first: "fst (limiter_middleware limiter store now ip path) = (if n < 10 then None else Some limited)"
    using path step by (simp add: limiter_middleware_def limited_def limiter_def)
  have "snd (limiter_middleware limiter store now ip path) = store'"
    using path step by (simp add: limiter_middleware_def)
  moreover have "store' ip = Some (n + 1, reset)" by (simp add: store'_def)
  moreover have "\<forall>r\<in>set rs. fst r < reset \<and> fst (snd r) = ip \<and> prefix ''/api/'' (snd (snd r))"
    using Cons.prems(2) by simp
  ultimately have rest: "serve_requests limiter (snd (limiter_middleware limiter store now ip path)) rs =
     map (\<lambda>k. if n + 1 + k < 10 then None else Some limited) [0..<length rs]"
    using Cons.IH [of store' "n + 1"] by simp
  have "map (\<lambda>k. if n + k < 10 then None else Some limited) [0..<length (r # rs)] =
        (if n < 10 then None else Some limited)
          # map (\<lambda>k. if n + 1 + k < 10 then None else Some limited) [0..<length rs]"
    by (simp add: map_upt_Suc del: upt_Suc)
  then show ?case using r i first rest by simp
qed

text \<open>The limiter reads and writes the store at the client of the request only.\<close>

lemma middleware_same_client:
  "s1 ip = s2 ip \<Longrightarrow>
   fst (limiter_middleware opts s1 now ip path) = fst (limiter_middleware opts s2 now ip path)
   \<and> snd (limiter_middleware opts s1 now ip path) ip = snd (limiter_middleware opts s2 now ip path) ip"
  by (simp add: limiter_middleware_def rate_limit_def Let_def)

lemma middleware_other_client:
  "i \<noteq> ip \<Longrightarrow> snd (limiter_middleware opts s now i path) ip = s ip"
  by (simp add: limiter_middleware_def rate_limit_def Let_def)

lemma answers_to_Nil: "answers_to ip [] xs = []"
  by (simp add: answers_to_def)

lemma answers_to_Cons:
  "answers_to ip ((now, i, path) # rs) (x # xs) =
     (if i = ip then x # answers_to ip rs xs else answers_to ip rs xs)"
  by (simp add: answers_to_def)

lemma of_client_Cons:
  "of_client ip ((now, i, path) # rs) = (if i = ip then (now, i, path) # of_client ip rs else of_client ip rs)"
  by (simp add: of_client_def)

lemma serve_requests_client:
  "s1 ip = s2 ip \<Longrightarrow>
   answers_to ip rs (serve_requests opts s1 rs) = serve_requests opts s2 (of_client ip rs)"
proof (induction rs arbitrary: s1 s2)
  case Nil
  show ?case by (simp add: answers_to_Nil of_client_def)
next
  case (Cons r rs)
  obtain now i path where r: "r = (now, i, path)" by (cases r) auto
  show ?case
  proof (cases "i = ip")
    case True
    from middleware_same_client [of s1 ip s2 opts now path] Cons.prems
    have a: "fst (limiter_middleware opts s1 now ip path) = fst (limiter_middleware opts s2 now ip path)"
      and b: "snd (limiter_middleware opts s1 now ip path) ip = snd (limiter_middleware opts s2 now ip path) ip"
      by simp_all
    show ?thesis
      using True r a
        Cons.IH [of "snd (limiter_middleware opts s1 now ip path)"
                    "snd (limiter_middleware opts s2 now ip path)"] b
      by (simp add: answers_to_Cons of_client_Cons)
  next
    case False
    have "snd (limiter_middleware opts s1 now i path) ip = s2 ip"
      using middleware_other_client [OF False] Cons.prems by simp
    from Cons.IH [of "snd (limiter_middleware opts s1 now i path)" s2] this show ?thesis
      using False r by (simp add: answers_to_Cons of_client_Cons)
  qed
qed

lemma serve_windows_client:
  "s1 ip = s2 ip \<Longrightarrow>
   answers_to ip rs (serve_windows opts s1 rs) = serve_windows opts s2 (of_client ip rs)"
proof (induction rs arbitrary: s1 s2)
  case Nil
  show ?case by (simp add: answers_to_Nil of_client_def)
next
  case (Cons r rs)
  obtain now i path where r: "r = (now, i, path)" by (cases r) auto
  show ?case
  proof (cases "i = ip")
    case True
    from middleware_same_client [of s1 ip s2 opts now path] Cons.prems
    have b: "snd (limiter_middleware opts s1 now ip path) ip = snd (limiter_middleware opts s2 now ip path) ip"
      by simp_all
    show ?thesis
      using True r b
        Cons.IH [of "snd (limiter_middleware opts s1 now ip path)"
                    "snd (limiter_middleware opts s2 now ip path)"]
      by (simp add: answers_to_Cons of_client_Cons)
  next
    case False
    have "snd (limiter_middleware opts s1 now i path) ip = s2 ip"
      using middleware_other_client [OF False] Cons.prems by simp
    from Cons.IH [of "snd (limiter_middleware opts s1 now i path)" s2] this show ?thesis
      using False r by (simp add: answers_to_Cons of_client_Cons)
  qed
qed

lemma serve_windows_in_window:
  "store ip = Some (n, reset) \<Longrightarrow>
   \<forall>r\<in>set rs. fst r < reset \<and> fst (snd r) = ip \<and> prefix ''/api/'' (snd (snd r)) \<Longrightarrow>
   serve_windows limiter store rs = replicate (length rs) (Some reset)"
proof (induction rs arbitrary: store n)
  case Nil
  show ?case by simp
next
  case (Cons r rs)
  obtain now i path where r: "r = (now, i, path)" by (cases r) auto
  from Cons.prems r have now: "now < reset" and i: "i = ip" and path: "prefix ''/api/'' path"
    by auto
  define store' where "store' = store(ip \<mapsto> (n + 1, reset))"
  have step: "rate_limit limiter store now ip = (n + 1 \<le> 10, store')"
    using Cons.prems(1) now by (simp add: rate_limit_def store'_def limiter_def)
  have s: "snd (limiter_middleware limiter store now ip path) = store'"
    using path step by (simp add: limiter_middleware_def)
  have s': "store' ip = Some (n + 1, reset)" by (simp add: store'_def)
  have "\<forall>r\<in>set rs. fst r < reset \<and> fst (snd r) = ip \<and> prefix ''/api/'' (snd (snd r))"
    using Cons.prems(2) by simp
  from Cons.IH [of store' "n + 1"] s' this show ?case using r i path s by simp
qed

lemma room_step_other:
  "i \<noteq> ip \<Longrightarrow> room (snd (limiter_middleware limiter s now i path)) ip t = room s ip t"
  by (simp add: room_def middleware_other_client)

lemma let_through_Nil: "let_through ip t [] xs ws = 0"
  by (simp add: let_through_def)

lemma let_through_Cons:
  "let_through ip t ((now, i, path) # rs) (a # xs) (w # ws) =
     (if i = ip \<and> a = None \<and> w = Some t then 1 else 0) + let_through ip t rs xs ws"
  by (simp add: let_through_def)

lemma let_through_room:
  "let_through ip t rs (serve_requests limiter store rs) (serve_windows limiter store rs)
     \<le> room store ip t"
proof (induction rs arbitrary: store)
  case Nil
  show ?case by (simp add: let_through_Nil)
next
  case (Cons r rs)
  obtain now i path where r: "r = (now, i, path)" by (cases r) auto
  let ?s = "snd (limiter_middleware limiter store now i path)"
  let ?a = "fst (limiter_middleware limiter store now i path)"
  let ?w = "if prefix ''/api/'' path then map_option snd (?s i) else None"
  have IH: "let_through ip t rs (serve_requests limiter ?s rs) (serve_windows limiter ?s rs) \<le> room ?s ip t"
    by (rule Cons.IH)
  have "(if i = ip \<and> ?a = None \<and> ?w = Some t then 1 else 0) + room ?s ip t \<le> room store ip t"
  proof (cases "i = ip")
    case False
    then show ?thesis by (simp add: room_step_other)
  next
    case True
    show ?thesis
    proof (cases "prefix ''/api/'' path")
      case False
      then show ?thesis by (simp add: limiter_middleware_def)
    next
      case api: True
      show ?thesis
        using True api
        by (cases "store ip")
           (auto simp: limiter_middleware_def rate_limit_def Let_def room_def limiter_def
                 split: if_splits prod.splits)
    qed
  qed
  with IH show ?case using r by (simp add: let_through_Cons)
qed

lemma room_le: "room store ip t \<le> 10"
  by (simp add: room_def split: option.splits)

lemma passes_count:
  "length (filter (\<lambda>a. a = None) (map (\<lambda>k. if k < 10 then None else Some limited) [0..<m])) = min m 10"
  by (induction m) (auto simp: min_def)

lemma of_client_client: "r \<in> set (of_client ip rs) \<Longrightarrow> fst (snd r) = ip"
  by (simp add: of_client_def)

text \<open>A request that finds no running window of its client opens one of 60000 ms.\<close>

lemma window_opening:
  assumes closed: "\<not> window_open store ip now"
    and first: "prefix ''/api/'' path"
    and rest: "\<forall>r\<in>set rs. fst r < now + 60000 \<and> fst (snd r) = ip \<and> prefix ''/api/'' (snd (snd r))"
  shows "serve_requests limiter store ((now, ip, path) # rs) =
           map (\<lambda>k. if k < 10 then None else Some limited) [0..<Suc (length rs)]"
    and "serve_windows limiter store ((now, ip, path) # rs) =
           replicate (Suc (length rs)) (Some (now + 60000))"
proof -
  define store' where "store' = store(ip \<mapsto> (1 :: nat, now + 60000))"
  have step: "rate_limit limiter store now ip = (True, store')"
    using closed
    by (auto simp: rate_limit_def store'_def limiter_def window_open_def split: option.splits)
  have a: "fst (limiter_middleware limiter store now ip path) = None"
    and b: "snd (limiter_middleware limiter store now ip path) = store'"
    using first step by (simp_all add: limiter_middleware_def)
  have s': "store' ip = Some (1, now + 60000)" by (simp add: store'_def)
  from serve_requests_in_window [of store' ip 1 "now + 60000" rs] s' rest
  have c: "serve_requests limiter store' rs = map (\<lambda>k. if 1 + k < 10 then None else Some limited) [0..<length rs]"
    by simp
  show "serve_requests limiter store ((now, ip, path) # rs) =
           map (\<lambda>k. if k < 10 then None else Some limited) [0..<Suc (length rs)]"
    using a b c by (simp add: map_upt_Suc del: upt_Suc)
  from serve_windows_in_window [of store' ip 1 "now + 60000" rs] s' rest
  have "serve_windows limiter store' rs = replicate (length rs) (Some (now + 60000))"
    by simp
  then show "serve_windows limiter store ((now, ip, path) # rs) =
           replicate (Suc (length rs)) (Some (now + 60000))"
    using b s' first by simp
qed

section \<open>The claims\<close>

subsection \<open>The fallback policy\<close>

text \<open>
  Claim C1 says that the policy advances to the next candidate on any failure of the
  upstream client, an empty response among them, which the specification defines as
  a text that is empty or whitespace-only. The property handler of the revision with four
  candidate models departs from it: \<^verbatim>\<open>if (description) break\<close> tests the text without
  trimming it, so a first candidate that answers 2xx with three spaces, whose trimmed
  text is empty, ends the loop. The answer is 200 with that blank description and one
  model was fetched, not the next candidate. The content handler does advance on that
  answer, for want of a bracketed span, and the Inaia revision of the property handler
  rejects it. The lemmas \<open>fallback_order\<close> and \<open>fallback_order_scripted\<close> above give
  the part of the claim that holds: the order of the attempts, and the scenario of
  three failures and a success, for the failures that the loops do recognise.
\<close>

theorem fallback_blank_answer:
  "trim ''   '' = []
   \<and> fst (propiedadia_fallback blank_first test_request)
       = \<lparr>status = 200, body = Description ''   ''\<rparr>
   \<and> map model (snd (propiedadia_fallback blank_first test_request))
       = [''meta-llama/llama-3.1-8b-instruct:free'']
   \<and> map model (snd (contenidoia_fallback blank_first cafe_request))
       = [''meta-llama/llama-3.1-8b-instruct:free'', ''mistralai/mistral-7b-instruct:free'']
   \<and> fst (propiedadia_inaia (\<lambda>m. Answered 200 ''   '') test_request)
       = \<lparr>status = 500,
          body = ErrorDetails ''Error interno del servidor''
                   (Detail (JString ''Inaia returned empty response''))\<rparr>"
proof -
  have t: "trim ''   '' = []"
    by (simp add: trim_def is_space1_def)
  have v: "\<not> falsy (propertyType test_request)" "\<not> falsy (location test_request)"
    "\<not> falsy (businessType cafe_request)"
    by (simp_all add: test_request_def cafe_request_def)
  have a: "fst (propiedadia_fallback blank_first test_request)
       = \<lparr>status = 200, body = Description ''   ''\<rparr>"
    using v by (simp add: propiedadia_fallback_def Let_def models_def blank_first_def)
  have b: "map model (snd (propiedadia_fallback blank_first test_request))
       = [''meta-llama/llama-3.1-8b-instruct:free'']"
    using v by (simp add: propiedadia_fallback_def Let_def models_def blank_first_def calls_of_def)
  have m: "parse_posts ''   '' = NoMatch"
    by (simp add: parse_posts_def)
  have c: "map model (snd (contenidoia_fallback blank_first cafe_request))
       = [''meta-llama/llama-3.1-8b-instruct:free'', ''mistralai/mistral-7b-instruct:free'']"
    using v example_reply_not_Nil
    by (simp add: contenidoia_fallback_def Let_def models_def blank_first_def calls_of_def m
        parse_posts_example length_positive_def)
  have d: "fst (propiedadia_inaia (\<lambda>m. Answered 200 ''   '') test_request)
       = \<lparr>status = 500,
          body = ErrorDetails ''Error interno del servidor''
                   (Detail (JString ''Inaia returned empty response''))\<rparr>"
    using v t by (simp add: propiedadia_inaia_def callInaiaAPI_def internal_error_def)
  from t a b c d show ?thesis by blast
qed

subsection \<open>Exhaustion of the candidates\<close>

text \<open>
  Claim C2 says that, when every candidate fails, the answer is 500 and its \<^verbatim>\<open>details\<close>
  derive from the last failure, a generic exhaustion error being reported only when no
  failure was captured. The code departs from it where \<^verbatim>\<open>JSON.parse(lastError)\<close> gives
  \<^verbatim>\<open>null\<close>: reading \<^verbatim>\<open>errorJson.error\<close> then throws, and the answer is the 500 of the outer
  \<^verbatim>\<open>catch\<close>, whose \<^verbatim>\<open>details\<close> is the message of that TypeError. This happens when the
  text of the last failure is the JSON literal \<^verbatim>\<open>null\<close> (first and third conjunct), and
  when no failure was captured because every candidate answered 2xx without usable
  output (second and fourth conjunct): the exhaustion response is then not produced.
  The last conjunct is the intended behaviour at a failure whose text is plain.
  The lemmas \<open>fallback_exhaustion\<close>, \<open>content_fallback_exhaustion\<close>, \<open>error_details_derived\<close>
  and \<open>error_details_None_iff\<close> above give the part of the claim that holds.
\<close>

theorem exhaustion_null_error:
  "fst (propiedadia_fallback (\<lambda>m. NotOk 503 ''null'') test_request)
     = \<lparr>status = 500, body = ErrorDetails ''Error interno del servidor'' TypeErrorMessage\<rparr>
   \<and> fst (propiedadia_fallback (\<lambda>m. Ok (Some [])) test_request)
     = \<lparr>status = 500, body = ErrorDetails ''Error interno del servidor'' TypeErrorMessage\<rparr>
   \<and> fst (contenidoia_fallback (\<lambda>m. NotOk 503 ''null'') cafe_request)
     = \<lparr>status = 500, body = ErrorDetails ''Error interno del servidor'' TypeErrorMessage\<rparr>
   \<and> fst (contenidoia_fallback (\<lambda>m. Ok (Some ''[]'')) cafe_request)
     = \<lparr>status = 500, body = ErrorDetails ''Error interno del servidor'' TypeErrorMessage\<rparr>
   \<and> fst (propiedadia_fallback (\<lambda>m. NotOk 503 ''Service Unavailable'') test_request)
     = \<lparr>status = 500,
        body = ErrorDetails ''Error de IA (Agotado)'' (Detail (JString ''Service Unavailable''))\<rparr>"
proof -
  have v: "\<not> falsy (propertyType test_request)" "\<not> falsy (location test_request)"
    "\<not> falsy (businessType cafe_request)"
    by (simp_all add: test_request_def cafe_request_def)
  have su: "JSON_parse ''Service Unavailable'' = None"
    by (simp add: JSON_parse_def parse_value.simps is_json_ws_def lex_number_def lex_int_part_def
        lex_digits_def is_digit_def)
  have e: "JSON_parse ''[]'' = Some (JArray [])"
    by (simp add: JSON_parse_def parse_value.simps is_json_ws_def)
  have "fst (propiedadia_fallback (\<lambda>m. NotOk 503 ''null'') test_request) = internal_error TypeErrorMessage"
    using fallback_exhaustion [OF v(1,2), of "\<lambda>m. NotOk 503 ''null''"]
    by (simp add: last_captured_def models_def exhausted_def error_details_None_iff [THEN iffD2] JSON_parse_null)
  moreover have "fst (propiedadia_fallback (\<lambda>m. Ok (Some [])) test_request) = internal_error TypeErrorMessage"
    using fallback_exhaustion [OF v(1,2), of "\<lambda>m. Ok (Some [])"]
    by (simp add: last_captured_def models_def exhausted_def error_details_null)
  moreover have "fst (contenidoia_fallback (\<lambda>m. NotOk 503 ''null'') cafe_request) = internal_error TypeErrorMessage"
    using content_fallback_exhaustion [OF v(3), of "\<lambda>m. NotOk 503 ''null''"]
    by (simp add: last_captured_def models_def exhausted_def error_details_None_iff [THEN iffD2] JSON_parse_null)
  moreover have "fst (contenidoia_fallback (\<lambda>m. Ok (Some ''[]'')) cafe_request) = internal_error TypeErrorMessage"
    using content_fallback_exhaustion [OF v(3), of "\<lambda>m. Ok (Some ''[]'')"]
    by (simp add: last_captured_def models_def exhausted_def error_details_null parse_posts_def e length_positive_def)
  moreover have "fst (propiedadia_fallback (\<lambda>m. NotOk 503 ''Service Unavailable'') test_request)
     = \<lparr>status = 500,
        body = ErrorDetails ''Error de IA (Agotado)'' (Detail (JString ''Service Unavailable''))\<rparr>"
    using fallback_exhaustion [OF v(1,2), of "\<lambda>m. NotOk 503 ''Service Unavailable''"]
    by (simp add: last_captured_def models_def exhausted_def error_details_def su)
  ultimately show ?thesis by (simp add: internal_error_def)
qed

subsection \<open>Empty descriptions\<close>

text \<open>
  Claim C3 says that a valid property request is answered either 200 with a non-empty
  description or 500, never 200 with an empty or blank description. The Inaia revision
  does so (\<open>propiedadia_inaia_responses\<close> above). The single-model OpenRouter revision does
  not: an empty or absent content is answered 200 with the empty description, and a
  non-2xx upstream status is passed on as the status of the answer. The revision with
  four candidate models answers 200 with a description of one space.
\<close>

theorem openrouter_empty_description:
  "fst (propiedadia_openrouter (\<lambda>m. Ok (Some [])) test_request)
     = \<lparr>status = 200, body = Description []\<rparr>
   \<and> fst (propiedadia_openrouter (\<lambda>m. Ok None) test_request)
     = \<lparr>status = 200, body = Description []\<rparr>
   \<and> fst (propiedadia_openrouter (\<lambda>m. NotOk 429 ''Rate limit exceeded'') test_request)
     = \<lparr>status = 429, body = ErrorDetails ''Error de OpenRouter'' (Detail (JString ''Rate limit exceeded''))\<rparr>
   \<and> fst (propiedadia_fallback (\<lambda>m. Ok (Some '' '')) test_request)
     = \<lparr>status = 200, body = Description '' ''\<rparr>"
  by (simp add: propiedadia_openrouter_def propiedadia_fallback_def test_request_def Let_def
      models_def openrouter_error_def error_details_def JSON_parse_def parse_value.simps
      is_json_ws_def lex_number_def lex_int_part_def lex_digits_def is_digit_def)

subsection \<open>The number of posts\<close>

text \<open>
  Claim C4, as amended. The count is \<^verbatim>\<open>Math.min(parseInt(postCount) || 5, 30)\<close>: an
  absent \<^verbatim>\<open>postCount\<close> gives 5, the integer 0 gives 5, every other integer \<open>n\<close> that a
  Number holds exactly gives \<open>min n 30\<close> (so 45 gives 30, 7 gives 7, and a negative \<open>n\<close>
  gives \<open>n\<close> itself); the count is never above 30. Every upstream call of the three
  content handlers carries, as its user message, the prompt built with this count, and
  the prompt starts with \<^verbatim>\<open>Genera <count> posts para redes sociales:\<close>.
\<close>

theorem post_count_clamp_upper_bound:
  "post_count_clamp PCAbsent = 5
   \<and> (\<bar>n\<bar> \<le> 9007199254740991 \<longrightarrow>
        post_count_clamp (PCNumber n) = (if n = 0 then 5 else min n 30))
   \<and> post_count_clamp pc \<le> 30
   \<and> (\<forall>c\<in>set (snd (contenidoia_openrouter fetch req)) \<union> set (snd (contenidoia_fallback fetch req))
           \<union> set (snd (contenidoia_inaia ifetch req)).
         snd (messages c ! 1) = buildContentPrompt (prompt_data req (post_count_clamp (postCount req))))
   \<and> (\<exists>rest. buildContentPrompt (prompt_data req k) =
         ''Genera '' @ number_to_string k @ '' posts para redes sociales:'' @ rest)"
proof -
  have "\<exists>rest. buildContentPrompt (prompt_data req k) =
         ''Genera '' @ number_to_string k @ '' posts para redes sociales:'' @ rest"
    by (simp add: buildContentPrompt_def prompt_data_def)
  moreover have "\<forall>c\<in>set (snd (contenidoia_openrouter fetch req)) \<union> set (snd (contenidoia_fallback fetch req))
           \<union> set (snd (contenidoia_inaia ifetch req)).
         snd (messages c ! 1) = buildContentPrompt (prompt_data req (post_count_clamp (postCount req)))"
    using content_calls_messages(1,2) [of _ fetch req] content_calls_messages(3) [of _ ifetch req]
    by auto
  ultimately show ?thesis
    by (simp add: post_count_clamp_absent post_count_clamp_number post_count_clamp_le)
qed

theorem post_count_clamp_upper_bound_witness:
  "post_count_clamp (PCNumber 7) = 7 \<and> post_count_clamp (PCNumber 45) = 30
   \<and> post_count_clamp (PCNumber 0) = 5
   \<and> (\<exists>rest. map (\<lambda>c. snd (messages c ! 1)) (snd (contenidoia_inaia (\<lambda>m. Answered 200 example_reply) cafe_request))
        = [''Genera 7 posts para redes sociales:'' @ rest])"
proof -
  note t = post_count_clamp_upper_bound [of _ _ "\<lambda>m. Ok None" cafe_request "\<lambda>m. Answered 200 example_reply"]
  have c7: "post_count_clamp (PCNumber 7) = 7" using t [of 7] by simp
  have c45: "post_count_clamp (PCNumber 45) = 30" using t [of 45] by simp
  have c0: "post_count_clamp (PCNumber 0) = 5" using t [of 0] by simp
  have calls: "snd (contenidoia_inaia (\<lambda>m. Answered 200 example_reply) cafe_request)
      = [\<lparr>model = ''reasoning'', messages = [(''system'', content_system_prompt 16),
           (''user'', buildContentPrompt (prompt_data cafe_request (post_count_clamp (postCount cafe_request))))]\<rparr>]"
    by (simp add: contenidoia_inaia_def Let_def calls_of_def cafe_request_def)
  have pc: "post_count_clamp (postCount cafe_request) = 7" using c7 by (simp add: cafe_request_def)
  obtain rest where "buildContentPrompt (prompt_data cafe_request 7) =
         ''Genera '' @ number_to_string 7 @ '' posts para redes sociales:'' @ rest"
    using t [of 0 PCAbsent 7] by blast
  then have "map (\<lambda>c. snd (messages c ! 1)) (snd (contenidoia_inaia (\<lambda>m. Answered 200 example_reply) cafe_request))
        = [''Genera 7 posts para redes sociales:'' @ rest]"
    using calls pc by (simp add: number_to_string_7)
  then have "\<exists>rest. map (\<lambda>c. snd (messages c ! 1)) (snd (contenidoia_inaia (\<lambda>m. Answered 200 example_reply) cafe_request))
        = [''Genera 7 posts para redes sociales:'' @ rest]"
    by (rule exI [of _ rest])
  then show ?thesis using c7 c45 c0 by simp
qed

text \<open>
  The claim as stated fails: \<open>-3\<close> is not treated as the default and the count is not
  kept at 1 or above.
\<close>

theorem post_count_negative_counterexample:
  "post_count_clamp (PCNumber (- 3)) = - 3 \<and> post_count_clamp (PCNumber (- 3)) \<noteq> 5
   \<and> \<not> 1 \<le> post_count_clamp (PCNumber (- 3))"
  by (simp add: post_count_clamp_number)

subsection \<open>Validation of the required fields\<close>

text \<open>
  Claim C5. When \<^verbatim>\<open>propertyType\<close> or \<^verbatim>\<open>location\<close> is missing (absent or empty) from a
  property request, each of the three revisions answers 400 with the message that names
  both fields, and the list of upstream calls is empty; the same holds for a content
  request without \<^verbatim>\<open>businessType\<close>, whose message names that field.
\<close>

theorem missing_fields_rejected:
  "(falsy (propertyType req) \<or> falsy (location req) \<longrightarrow>
      propiedadia_openrouter fetch req =
        (\<lparr>status = 400, body = ErrorOnly ''Faltan campos requeridos (propertyType, location)''\<rparr>, [])
      \<and> propiedadia_fallback fetch req =
        (\<lparr>status = 400, body = ErrorOnly ''Faltan campos requeridos (propertyType, location)''\<rparr>, [])
      \<and> propiedadia_inaia ifetch req =
        (\<lparr>status = 400, body = ErrorOnly ''Faltan campos requeridos (propertyType, location)''\<rparr>, []))
   \<and> (falsy (businessType creq) \<longrightarrow>
      contenidoia_openrouter fetch creq =
        (\<lparr>status = 400, body = ErrorOnly ''Falta el tipo de negocio (businessType)''\<rparr>, [])
      \<and> contenidoia_fallback fetch creq =
        (\<lparr>status = 400, body = ErrorOnly ''Falta el tipo de negocio (businessType)''\<rparr>, [])
      \<and> contenidoia_inaia ifetch creq =
        (\<lparr>status = 400, body = ErrorOnly ''Falta el tipo de negocio (businessType)''\<rparr>, []))
   \<and> sublist ''propertyType'' ''Faltan campos requeridos (propertyType, location)''
   \<and> sublist ''location'' ''Faltan campos requeridos (propertyType, location)''
   \<and> sublist ''businessType'' ''Falta el tipo de negocio (businessType)''"
proof -
  have "''Faltan campos requeridos (propertyType, location)''
          = ''Faltan campos requeridos ('' @ ''propertyType'' @ '', location)''"
    and "''Faltan campos requeridos (propertyType, location)''
          = ''Faltan campos requeridos (propertyType, '' @ ''location'' @ '')''"
    and "''Falta el tipo de negocio (businessType)''
          = ''Falta el tipo de negocio ('' @ ''businessType'' @ '')''"
    by simp_all
  then have "sublist ''propertyType'' ''Faltan campos requeridos (propertyType, location)''"
    and "sublist ''location'' ''Faltan campos requeridos (propertyType, location)''"
    and "sublist ''businessType'' ''Falta el tipo de negocio (businessType)''"
    unfolding sublist_def by blast+
  then show ?thesis
    by (simp add: propiedadia_openrouter_def propiedadia_fallback_def propiedadia_inaia_def
        contenidoia_openrouter_def contenidoia_fallback_def contenidoia_inaia_def bad_request_def)
qed

theorem missing_fields_rejected_witness:
  "propiedadia_fallback (\<lambda>m. Ok (Some ''Lindo departamento''))
     (test_request\<lparr>location := None\<rparr>) =
     (\<lparr>status = 400, body = ErrorOnly ''Faltan campos requeridos (propertyType, location)''\<rparr>, [])
   \<and> contenidoia_inaia (\<lambda>m. Answered 200 ''[]'') (cafe_request\<lparr>businessType := Some []\<rparr>) =
     (\<lparr>status = 400, body = ErrorOnly ''Falta el tipo de negocio (businessType)''\<rparr>, [])"
  using missing_fields_rejected [of "test_request\<lparr>location := None\<rparr>"
      "\<lambda>m. Ok (Some ''Lindo departamento'')" "\<lambda>m. Answered 200 ''[]''"
      "cafe_request\<lparr>businessType := Some []\<rparr>"]
  by (simp add: test_request_def cafe_request_def)

subsection \<open>The parser of the posts\<close>

text \<open>
  Claim C6. \<^verbatim>\<open>content.match(/\[[\s\S]*\]/)\<close> gives a match exactly when the text has a
  \<^verbatim>\<open>]\<close> after its first \<^verbatim>\<open>[\<close>, and the match is the span from the first \<^verbatim>\<open>[\<close> to the
  last \<^verbatim>\<open>]\<close> of the text, whatever stands before and after; that span is what
  \<^verbatim>\<open>JSON.parse\<close> reads. For the reply \<^verbatim>\<open>Here you go:\<close>, newline, the array with the one
  post of content \<^verbatim>\<open>hi\<close> and hashtags \<^verbatim>\<open>#a\<close>, newline, \<^verbatim>\<open>Enjoy!\<close> the parse yields exactly
  that one post.
\<close>

theorem posts_parser:
  "(jsonMatch s = Some m \<longleftrightarrow>
      (\<exists>pre mid suf. s = pre @ CHR ''['' # mid @ CHR '']'' # suf \<and> CHR ''['' \<notin> set pre
         \<and> CHR '']'' \<notin> set suf \<and> m = CHR ''['' # mid @ [CHR '']'']))
   \<and> parse_posts s =
       (case jsonMatch s of
          None \<Rightarrow> NoMatch
        | Some span \<Rightarrow> (case JSON_parse span of None \<Rightarrow> ParseThrew | Some v \<Rightarrow> Parsed v))
   \<and> parse_posts example_reply =
       Parsed (JArray [JObject [(''content'', JString ''hi''),
                                (''hashtags'', JArray [JString ''#a''])]])"
proof -
  have "jsonMatch s = Some m \<longleftrightarrow>
      (\<exists>pre mid suf. s = pre @ CHR ''['' # mid @ CHR '']'' # suf \<and> CHR ''['' \<notin> set pre
         \<and> CHR '']'' \<notin> set suf \<and> m = CHR ''['' # mid @ [CHR '']''])"
    using jsonMatch_Some_split [of s m] jsonMatch_first_to_last by blast
  then show ?thesis
    by (simp add: parse_posts_example) (simp add: parse_posts_def)
qed

subsection \<open>The rate limiter\<close>

text \<open>
  Claim C7. The limiter is configured with a window of 60000 ms and 10 requests, and
  answers beyond the limit with status 429 and the configured message. Over any
  sequence of requests, of any clients at any times and from any store:
  the answers to one client are those it would get were its requests the only ones
  (the count is per client IP), and of the requests of one client counted in one
  window at most ten are let through (the count never overshoots). A request to a
  path under \<^verbatim>\<open>/api/\<close> whose client has no window, or one that has ended, opens a window
  that ends 60000 ms later: all requests of that client before that time are counted
  in it, whatever other clients send in between, the first ten go on and every later
  one gets the 429 answer, so the number let through is the smaller of their number
  and 10. In a running window that has counted \<open>n\<close> requests, the further requests of its
  client before its end, numbered from \<open>k = 0\<close>, go on exactly when \<open>n + k < 10\<close>.
\<close>

theorem rate_limit_window:
  "windowMs limiter = 60000 \<and> max_requests limiter = 10
   \<and> limited = \<lparr>status = 429, body = ErrorOnly (limit_message limiter)\<rparr>
   \<and> answers_to ip rs (serve_requests limiter store rs)
       = serve_requests limiter store (of_client ip rs)
   \<and> let_through ip t rs (serve_requests limiter store rs) (serve_windows limiter store rs) \<le> 10
   \<and> (\<not> window_open store ip now \<and> prefix ''/api/'' path
        \<and> (\<forall>r\<in>set (of_client ip rs). fst r < now + 60000 \<and> prefix ''/api/'' (snd (snd r))) \<longrightarrow>
       answers_to ip ((now, ip, path) # rs) (serve_requests limiter store ((now, ip, path) # rs))
         = map (\<lambda>k. if k < 10 then None else Some limited) [0..<Suc (length (of_client ip rs))]
       \<and> answers_to ip ((now, ip, path) # rs) (serve_windows limiter store ((now, ip, path) # rs))
         = replicate (Suc (length (of_client ip rs))) (Some (now + 60000))
       \<and> length (filter (\<lambda>a. a = None)
                   (answers_to ip ((now, ip, path) # rs)
                      (serve_requests limiter store ((now, ip, path) # rs))))
         = min (Suc (length (of_client ip rs))) 10)
   \<and> (store ip = Some (n, reset)
        \<and> (\<forall>r\<in>set (of_client ip rs). fst r < reset \<and> prefix ''/api/'' (snd (snd r))) \<longrightarrow>
       answers_to ip rs (serve_requests limiter store rs)
         = map (\<lambda>k. if n + k < 10 then None else Some limited) [0..<length (of_client ip rs)])"
proof -
  have client: "answers_to ip xs (serve_requests limiter store xs)
       = serve_requests limiter store (of_client ip xs)" for xs
    by (rule serve_requests_client) simp
  have windows: "answers_to ip xs (serve_windows limiter store xs)
       = serve_windows limiter store (of_client ip xs)" for xs
    by (rule serve_windows_client) simp
  have bound: "let_through ip t rs (serve_requests limiter store rs) (serve_windows limiter store rs) \<le> 10"
    using let_through_room [of ip t rs store] room_le [of store ip t] by simp
  have fresh: "answers_to ip ((now, ip, path) # rs) (serve_requests limiter store ((now, ip, path) # rs))
         = map (\<lambda>k. if k < 10 then None else Some limited) [0..<Suc (length (of_client ip rs))]
       \<and> answers_to ip ((now, ip, path) # rs) (serve_windows limiter store ((now, ip, path) # rs))
         = replicate (Suc (length (of_client ip rs))) (Some (now + 60000))
       \<and> length (filter (\<lambda>a. a = None)
                   (answers_to ip ((now, ip, path) # rs)
                      (serve_requests limiter store ((now, ip, path) # rs))))
         = min (Suc (length (of_client ip rs))) 10"
    if closed: "\<not> window_open store ip now" and first: "prefix ''/api/'' path"
      and rest: "\<forall>r\<in>set (of_client ip rs). fst r < now + 60000 \<and> prefix ''/api/'' (snd (snd r))"
  proof -
    have rest': "\<forall>r\<in>set (of_client ip rs).
        fst r < now + 60000 \<and> fst (snd r) = ip \<and> prefix ''/api/'' (snd (snd r))"
      using rest of_client_client by blast
    have split: "of_client ip ((now, ip, path) # rs) = (now, ip, path) # of_client ip rs"
      by (simp add: of_client_Cons)
    have a: "answers_to ip ((now, ip, path) # rs) (serve_requests limiter store ((now, ip, path) # rs))
         = map (\<lambda>k. if k < 10 then None else Some limited) [0..<Suc (length (of_client ip rs))]"
      using window_opening(1) [OF closed first rest'] client [of "(now, ip, path) # rs"] split
      by simp
    have b: "answers_to ip ((now, ip, path) # rs) (serve_windows limiter store ((now, ip, path) # rs))
         = replicate (Suc (length (of_client ip rs))) (Some (now + 60000))"
      using window_opening(2) [OF closed first rest'] windows [of "(now, ip, path) # rs"] split
      by simp
    show ?thesis
      using a b passes_count [of "Suc (length (of_client ip rs))"] by simp
  qed
  have running: "answers_to ip rs (serve_requests limiter store rs)
         = map (\<lambda>k. if n + k < 10 then None else Some limited) [0..<length (of_client ip rs)]"
    if entry: "store ip = Some (n, reset)"
      and rest: "\<forall>r\<in>set (of_client ip rs). fst r < reset \<and> prefix ''/api/'' (snd (snd r))"
  proof -
    have rest': "\<forall>r\<in>set (of_client ip rs).
        fst r < reset \<and> fst (snd r) = ip \<and> prefix ''/api/'' (snd (snd r))"
      using rest of_client_client by blast
    show ?thesis
      using serve_requests_in_window [of store ip n reset "of_client ip rs"] entry rest' client [of rs]
      by simp
  qed
  have "windowMs limiter = 60000 \<and> max_requests limiter = 10
   \<and> limited = \<lparr>status = 429, body = ErrorOnly (limit_message limiter)\<rparr>"
    by (simp add: limiter_def limited_def)
  then show ?thesis
    using client [of rs] bound fresh running by blast
qed

theorem rate_limit_window_witness:
  "length burst = 11
   \<and> answers_to ''203.0.113.7'' (burst @ [other_client])
        (serve_requests limiter Map.empty (burst @ [other_client]))
       = replicate 10 None @ [Some limited]
   \<and> answers_to ''203.0.113.7'' next_window (serve_requests limiter after_burst next_window)
       = [None, None]
   \<and> answers_to ''203.0.113.7'' next_window (serve_windows limiter after_burst next_window)
       = [Some 121000, Some 121000]
   \<and> answers_to ''203.0.113.7'' next_window (serve_requests limiter nearly_full next_window)
       = [None, Some limited]"
proof -
  have b: "burst @ [other_client] = (1000, ''203.0.113.7'', ''/api/health'') # tl burst @ [other_client]"
    by (simp add: burst_def upt_rec)
  have c: "of_client ''203.0.113.7'' (tl burst @ [other_client]) = tl burst"
    by (simp add: burst_def upt_rec of_client_def other_client_def)
  have l: "length (tl burst) = 10" by (simp add: burst_def)
  have r: "\<forall>r\<in>set (of_client ''203.0.113.7'' (tl burst @ [other_client])).
             fst r < 1000 + 60000 \<and> prefix ''/api/'' (snd (snd r))"
    unfolding c by (simp add: burst_def upt_rec)
  have w: "\<not> window_open Map.empty ''203.0.113.7'' 1000"
    by (simp add: window_open_def)
  have p: "prefix ''/api/'' ''/api/health''" by simp
  note first = rate_limit_window [of "''203.0.113.7''" "tl burst @ [other_client]" Map.empty 0
      1000 "''/api/health''" 0 0]
  have "answers_to ''203.0.113.7'' ((1000, ''203.0.113.7'', ''/api/health'') # tl burst @ [other_client])
          (serve_requests limiter Map.empty
             ((1000, ''203.0.113.7'', ''/api/health'') # tl burst @ [other_client]))
        = map (\<lambda>k. if k < 10 then None else Some limited)
            [0..<Suc (length (of_client ''203.0.113.7'' (tl burst @ [other_client])))]"
    using first w p r by blast
  also have "\<dots> = replicate 10 None @ [Some limited]"
    unfolding c l by (simp add: upt_rec numeral_eq_Suc)
  finally have one: "answers_to ''203.0.113.7'' (burst @ [other_client])
        (serve_requests limiter Map.empty (burst @ [other_client]))
       = replicate 10 None @ [Some limited]"
    unfolding b .
  have n: "next_window = (61000, ''203.0.113.7'', ''/api/health'') # tl next_window"
    by (simp add: next_window_def)
  have c2: "of_client ''203.0.113.7'' (tl next_window) = [(61002, ''203.0.113.7'', ''/api/health'')]"
    by (simp add: next_window_def of_client_def)
  have r2: "\<forall>r\<in>set (of_client ''203.0.113.7'' (tl next_window)).
             fst r < 61000 + 60000 \<and> prefix ''/api/'' (snd (snd r))"
    unfolding c2 by simp
  have w2: "\<not> window_open after_burst ''203.0.113.7'' 61000"
    by (simp add: window_open_def after_burst_def)
  note second = rate_limit_window [of "''203.0.113.7''" "tl next_window" after_burst 0
      61000 "''/api/health''" 0 0]
  have "answers_to ''203.0.113.7'' ((61000, ''203.0.113.7'', ''/api/health'') # tl next_window)
        (serve_requests limiter after_burst
           ((61000, ''203.0.113.7'', ''/api/health'') # tl next_window))
       = map (\<lambda>k. if k < 10 then None else Some limited)
            [0..<Suc (length (of_client ''203.0.113.7'' (tl next_window)))]
    \<and> answers_to ''203.0.113.7'' ((61000, ''203.0.113.7'', ''/api/health'') # tl next_window)
        (serve_windows limiter after_burst
           ((61000, ''203.0.113.7'', ''/api/health'') # tl next_window))
       = replicate (Suc (length (of_client ''203.0.113.7'' (tl next_window)))) (Some (61000 + 60000))"
    using second w2 p r2 by blast
  then have "answers_to ''203.0.113.7'' next_window (serve_requests limiter after_burst next_window)
       = map (\<lambda>k. if k < 10 then None else Some limited)
            [0..<Suc (length (of_client ''203.0.113.7'' (tl next_window)))]
    \<and> answers_to ''203.0.113.7'' next_window (serve_windows limiter after_burst next_window)
       = replicate (Suc (length (of_client ''203.0.113.7'' (tl next_window)))) (Some (61000 + 60000))"
    unfolding n [symmetric] .
  then have two: "answers_to ''203.0.113.7'' next_window (serve_requests limiter after_burst next_window)
       = [None, None]
    \<and> answers_to ''203.0.113.7'' next_window (serve_windows limiter after_burst next_window)
       = [Some 121000, Some 121000]"
    unfolding c2 by (simp add: upt_rec)
  have c3: "of_client ''203.0.113.7'' next_window
      = [(61000, ''203.0.113.7'', ''/api/health''), (61002, ''203.0.113.7'', ''/api/health'')]"
    by (simp add: next_window_def of_client_def)
  have e3: "nearly_full ''203.0.113.7'' = Some (9, 62000)"
    by (simp add: nearly_full_def)
  have r3: "\<forall>r\<in>set (of_client ''203.0.113.7'' next_window).
             fst r < 62000 \<and> prefix ''/api/'' (snd (snd r))"
    unfolding c3 by simp
  note third = rate_limit_window [of "''203.0.113.7''" next_window nearly_full 0 0 "[]" 9 62000]
  have "answers_to ''203.0.113.7'' next_window (serve_requests limiter nearly_full next_window)
        = map (\<lambda>k. if 9 + k < 10 then None else Some limited)
            [0..<length (of_client ''203.0.113.7'' next_window)]"
    using third e3 r3 by blast
  then have three: "answers_to ''203.0.113.7'' next_window
          (serve_requests limiter nearly_full next_window) = [None, Some limited]"
    unfolding c3 by (simp add: upt_rec)
  have "length burst = 11" by (simp add: burst_def)
  with one two three show ?thesis by blast
qed

subsection \<open>The cross-origin policy\<close>

text \<open>
  Claim C8, as amended. A request without an Origin header goes on to the routes; so
  does a request whose origin is in the allow-list; a request whose origin is not empty
  and not in the allow-list is rejected with the error of the callback and reaches no
  route. An Origin header with an empty value is treated as no origin (\<^verbatim>\<open>!origin\<close>) and
  goes on to the routes.
\<close>

theorem cors_origin_policy:
  "cors_origin revn allowed None = Inr True
   \<and> cors_middleware revn allowed None route = Reached route
   \<and> (orig \<in> set allowed \<longrightarrow>
        cors_origin revn allowed (Some orig) = Inr True
        \<and> cors_middleware revn allowed (Some orig) route = Reached route)
   \<and> (orig \<noteq> [] \<and> orig \<notin> set allowed \<longrightarrow>
        cors_origin revn allowed (Some orig)
          = Inl (if revn = OpenRouter then ''No permitido por CORS''
                 else ''No permitido por CORS: '' @ orig)
        \<and> (\<exists>msg. cors_middleware revn allowed (Some orig) route = Rejected msg))
   \<and> cors_origin revn allowed (Some []) = Inr True
   \<and> cors_middleware revn allowed (Some []) route = Reached route"
  by (simp add: cors_origin_def cors_middleware_def)

theorem cors_origin_policy_witness:
  "cors_middleware Inaia (allowedOrigins None) (Some ''https://evil.example'')
       (propiedadia_inaia (\<lambda>m. Answered 200 ''Lindo departamento'') test_request)
     = Rejected ''No permitido por CORS: https://evil.example''
   \<and> cors_middleware Inaia (allowedOrigins None) None
       (propiedadia_inaia (\<lambda>m. Answered 200 ''Lindo departamento'') test_request)
     = Reached (propiedadia_inaia (\<lambda>m. Answered 200 ''Lindo departamento'') test_request)
   \<and> cors_origin Inaia (allowedOrigins (Some ''https://a.example,https://b.example''))
        (Some ''https://b.example'') = Inr True"
proof -
  have a: "allowedOrigins None = [''http://localhost:5500'']"
    "allowedOrigins (Some ''https://a.example,https://b.example'') = [''https://a.example'', ''https://b.example'']"
    by (simp_all add: allowedOrigins_def)
  have "cors_origin Inaia (allowedOrigins None) (Some ''https://evil.example'') = Inl ''No permitido por CORS: https://evil.example''"
    using cors_origin_policy [of Inaia "allowedOrigins None" "()" "''https://evil.example''"] a
    by simp
  then have r: "cors_middleware Inaia (allowedOrigins None) (Some ''https://evil.example'')
       (propiedadia_inaia (\<lambda>m. Answered 200 ''Lindo departamento'') test_request)
     = Rejected ''No permitido por CORS: https://evil.example''"
    by (simp add: cors_middleware_def)
  have "cors_origin Inaia (allowedOrigins (Some ''https://a.example,https://b.example''))
        (Some ''https://b.example'') = Inr True"
    using cors_origin_policy [of Inaia "allowedOrigins (Some ''https://a.example,https://b.example'')"
        "()" "''https://b.example''"] a
    by simp
  with r show ?thesis
    using cors_origin_policy [of Inaia "allowedOrigins None"
        "propiedadia_inaia (\<lambda>m. Answered 200 ''Lindo departamento'') test_request" "[]"]
    by simp
qed

text \<open>
  The claim as stated fails for the empty origin: it is not in the allow-list, yet the
  request reaches the route.
\<close>

theorem cors_empty_origin_counterexample:
  "[] \<notin> set (allowedOrigins None)
   \<and> cors_origin Inaia (allowedOrigins None) (Some []) = Inr True
   \<and> cors_middleware Inaia (allowedOrigins None) (Some [])
       (propiedadia_inaia (\<lambda>m. Answered 200 ''Lindo departamento'') test_request)
     = Reached (propiedadia_inaia (\<lambda>m. Answered 200 ''Lindo departamento'') test_request)"
  by (simp add: allowedOrigins_def cors_origin_def cors_middleware_def)

subsection \<open>The prompt builders\<close>

text \<open>
  Claim C9 says that an unrecognized style, tone or network resolves to the same default
  phrase as a missing one. Both builders are total, and a value that names neither an
  entry of the table nor a property of \<^verbatim>\<open>Object.prototype\<close> does resolve to the default
  (\<open>unrecognized_is_default\<close>, \<open>missing_is_default\<close> above). The code departs from the claim
  for the names that every object inherits: \<^verbatim>\<open>styleDescriptions['constructor']\<close> is the
  function \<^verbatim>\<open>Object\<close>, which is truthy, so the prompt carries its source text instead of
  the default phrase.
\<close>

theorem inherited_style_not_default:
  "or_default (table_lookup styleDescriptions (Some ''constructor'')) ''profesional''
     = ''function Object() { [native code] }''
   \<and> or_default (table_lookup styleDescriptions None) ''profesional'' = ''profesional''
   \<and> buildPropertyPrompt (test_request\<lparr>style := Some ''constructor''\<rparr>)
       \<noteq> buildPropertyPrompt (test_request\<lparr>style := None\<rparr>)
   \<and> buildContentPrompt (prompt_data (cafe_request\<lparr>tone := Some ''toString''\<rparr>) 5)
       \<noteq> buildContentPrompt (prompt_data (cafe_request\<lparr>tone := None\<rparr>) 5)"
  by (simp add: table_lookup_def styleDescriptions_def toneDescriptions_def networkFormats_def
      object_prototype_member_def buildPropertyPrompt_def buildContentPrompt_def prompt_data_def
      test_request_def cafe_request_def)

subsection \<open>The parse fallback of the single-model revision\<close>

text \<open>
  Claim C10. In the single-model OpenRouter revision a valid content request whose
  upstream call succeeds is always answered 200: when \<^verbatim>\<open>JSON.parse\<close> of the matched span
  throws, the posts are \<^verbatim>\<open>generateFallbackPosts(businessType, count)\<close>, the first \<open>count\<close>
  of five templates and so at most five; when the text has no bracketed span, the posts
  are the empty array.
\<close>

theorem openrouter_parse_fallback:
  assumes "\<not> falsy (businessType req)" and "fetch openrouter_model = Ok content"
  shows "status (fst (contenidoia_openrouter fetch req)) = 200
     \<and> (jsonMatch (or_default content []) = Some span \<and> JSON_parse span = None \<longrightarrow>
          fst (contenidoia_openrouter fetch req) =
            \<lparr>status = 200,
             body = Posts (JArray (generateFallbackPosts (businessType req)
                                     (post_count_clamp (postCount req))))\<rparr>)
     \<and> (jsonMatch (or_default content []) = None \<longrightarrow>
          fst (contenidoia_openrouter fetch req) = \<lparr>status = 200, body = Posts (JArray [])\<rparr>)
     \<and> generateFallbackPosts (businessType req) n = slice0 (templates (to_str (businessType req))) n
     \<and> length (templates (to_str (businessType req))) = 5
     \<and> length (generateFallbackPosts (businessType req) n) \<le> 5"
proof -
  have "status (fst (contenidoia_openrouter fetch req)) = 200"
    using assms
    by (cases "parse_posts (or_default content [])")
       (simp_all add: contenidoia_openrouter_def Let_def)
  moreover have "fst (contenidoia_openrouter fetch req) =
            \<lparr>status = 200,
             body = Posts (JArray (generateFallbackPosts (businessType req)
                                     (post_count_clamp (postCount req))))\<rparr>"
    if "jsonMatch (or_default content []) = Some span" "JSON_parse span = None"
    using assms that by (simp add: contenidoia_openrouter_def Let_def parse_posts_def)
  moreover have "fst (contenidoia_openrouter fetch req) = \<lparr>status = 200, body = Posts (JArray [])\<rparr>"
    if "jsonMatch (or_default content []) = None"
    using assms that by (simp add: contenidoia_openrouter_def Let_def parse_posts_def)
  ultimately show ?thesis
    by (simp add: length_templates length_generateFallbackPosts) (simp add: generateFallbackPosts_def)
qed

theorem openrouter_parse_fallback_witness:
  "fst (contenidoia_openrouter (\<lambda>m. Ok (Some ''Posts: [1,]'')) (cafe_request\<lparr>postCount := PCNumber 30\<rparr>)) =
     \<lparr>status = 200, body = Posts (JArray (templates ''cafeteria''))\<rparr>
   \<and> length (templates ''cafeteria'') = 5
   \<and> fst (contenidoia_openrouter (\<lambda>m. Ok (Some ''No puedo ayudar'')) cafe_request) =
     \<lparr>status = 200, body = Posts (JArray [])\<rparr>"
proof -
  have v: "\<not> falsy (businessType (cafe_request\<lparr>postCount := PCNumber 30\<rparr>))"
    "\<not> falsy (businessType cafe_request)"
    by (simp_all add: cafe_request_def)
  have m: "jsonMatch (or_default (Some ''Posts: [1,]'') []) = Some ''[1,]''" by simp
  have c: "post_count_clamp (PCNumber 30) = 30" by code_simp
  have "fst (contenidoia_openrouter (\<lambda>m. Ok (Some ''Posts: [1,]'')) (cafe_request\<lparr>postCount := PCNumber 30\<rparr>)) =
     \<lparr>status = 200, body = Posts (JArray (templates ''cafeteria''))\<rparr>
     \<and> length (templates ''cafeteria'') = 5"
    using openrouter_parse_fallback [OF v(1), of "\<lambda>m. Ok (Some ''Posts: [1,]'')" "Some ''Posts: [1,]''" "''[1,]''" 30]
      m JSON_parse_trailing_comma c
    by (simp add: cafe_request_def slice0_def)
  moreover have "fst (contenidoia_openrouter (\<lambda>m. Ok (Some ''No puedo ayudar'')) cafe_request) =
     \<lparr>status = 200, body = Posts (JArray [])\<rparr>"
    using openrouter_parse_fallback [OF v(2), of "\<lambda>m. Ok (Some ''No puedo ayudar'')" "Some ''No puedo ayudar''" "[]" 0]
    by simp
  ultimately show ?thesis by simp
qed

end
